theory Spec2Isabelle
  imports Main "HOL-Library.Monad_Syntax"
begin

section \<open>Conway's Game of Life on a torus: a model of gol.c\<close>

text \<open>
  The C program keeps the world in a heap-allocated \<^verbatim>\<open>int\<close> array, computes every
  generation into a second heap array and exchanges the two pointers. The model keeps that
  structure: a heap of blocks addressed by pointers, a record for \<^verbatim>\<open>struct gol_data\<close>,
  the global counter \<^verbatim>\<open>total_live\<close> as a field of the program state, every
  \<^verbatim>\<open>for\<close> loop as a recursive function on its counter.

  \<open>None\<close> stands for undefined behaviour of the C program: an access outside an
  allocated block, a remainder by zero, and an \<^verbatim>\<open>int\<close> operation whose result is not a
  value of a 32-bit \<^verbatim>\<open>int\<close>. The values themselves are integers of HOL; wherever the
  program computes one, \<open>int_val\<close> checks that it is in the range. Two places compute
  without the check, each a value that has been computed with it on the way there:
  \<open>update_world\<close>, which is entered from \<open>play_gol\<close> with the index \<open>play_gol\<close> has
  just computed and a counter no larger than the number of cells; and the number of cells
  in \<open>play_gol\<close>, the product \<open>init_game_data_from_args\<close> has computed for the same
  dimensions.
\<close>

subsection \<open>Memory\<close>

type_synonym addr = nat

text \<open>A heap is the list of the blocks allocated so far; a freed block is \<open>None\<close>.\<close>

type_synonym heap = "int list option list"

text \<open>
  \<^verbatim>\<open>malloc(n * sizeof(int))\<close>: a new block of \<open>n\<close> cells, distinct from every block
  allocated before. Its contents are indeterminate: they are the parameter \<open>junk\<close>.
  A request for no cells, or for a negative number of them, gives a block with no cell, where
  every access is undefined.
\<close>

definition malloc :: "heap \<Rightarrow> int \<Rightarrow> (nat \<Rightarrow> int) \<Rightarrow> addr \<times> heap" where
  "malloc h n junk = (length h, h @ [Some (map junk [0..<nat n])])"

definition free :: "heap \<Rightarrow> addr \<Rightarrow> heap" where
  "free h p = h[p := None]"

definition block_at :: "heap \<Rightarrow> addr \<Rightarrow> int list option" where
  "block_at h p = (if p < length h then h ! p else None)"

text \<open>\<^verbatim>\<open>p[idx]\<close> as an rvalue, and \<^verbatim>\<open>p[idx] = v\<close>.\<close>

definition array_read :: "heap \<Rightarrow> addr \<Rightarrow> int \<Rightarrow> int option" where
  "array_read h p idx =
     (case block_at h p of
        None \<Rightarrow> None
      | Some b \<Rightarrow> if 0 \<le> idx \<and> idx < int (length b) then Some (b ! nat idx) else None)"

definition array_write :: "heap \<Rightarrow> addr \<Rightarrow> int \<Rightarrow> int \<Rightarrow> heap option" where
  "array_write h p idx v =
     (case block_at h p of
        None \<Rightarrow> None
      | Some b \<Rightarrow>
          if 0 \<le> idx \<and> idx < int (length b) then Some (h[p := Some (b[nat idx := v])])
          else None)"

subsection \<open>C integer division\<close>

text \<open>
  C99 \<^verbatim>\<open>/\<close> truncates towards zero and \<^verbatim>\<open>a % b\<close> is \<^verbatim>\<open>a - (a / b) * b\<close>, so the
  remainder has the sign of \<open>a\<close>.
\<close>

definition c_div :: "int \<Rightarrow> int \<Rightarrow> int" where
  "c_div a b = sgn a * sgn b * (\<bar>a\<bar> div \<bar>b\<bar>)"

definition c_mod :: "int \<Rightarrow> int \<Rightarrow> int" where
  "c_mod a b = a - c_div a b * b"

text \<open>
  The values of a 32-bit \<^verbatim>\<open>int\<close>, and the result of an \<^verbatim>\<open>int\<close> operation whose
  mathematical value is \<open>v\<close>: signed overflow is undefined.
\<close>

definition in_int_range :: "int \<Rightarrow> bool" where
  "in_int_range v = (- (2 ^ 31) \<le> v \<and> v < 2 ^ 31)"

definition int_val :: "int \<Rightarrow> int option" where
  "int_val v = (if in_int_range v then Some v else None)"

text \<open>
  \<^verbatim>\<open>a % b\<close> is undefined for \<open>b = 0\<close>, and where the quotient \<^verbatim>\<open>a / b\<close> is not a
  value of \<^verbatim>\<open>int\<close>.
\<close>

definition c_rem :: "int \<Rightarrow> int \<Rightarrow> int option" where
  "c_rem a b = (if b = 0 \<or> \<not> in_int_range (c_div a b) then None else Some (c_mod a b))"

subsection \<open>The program state\<close>

text \<open>
  \<^verbatim>\<open>struct gol_data\<close>. \<open>cells\<close> is a pointer into the heap. The two fields used by the
  ParaVis library (\<^verbatim>\<open>handle\<close>, \<^verbatim>\<open>image_buff\<close>) are left out with the library.
\<close>

record gol_data =
  rows :: int
  cols :: int
  iters :: int
  output_mode :: int
  cells :: addr
  current_round :: int

definition OUTPUT_NONE :: int where "OUTPUT_NONE = 0"
definition OUTPUT_ASCII :: int where "OUTPUT_ASCII = 1"
definition OUTPUT_VISI :: int where "OUTPUT_VISI = 2"

text \<open>The heap, the global \<^verbatim>\<open>total_live\<close> and \<^verbatim>\<open>main\<close>'s \<^verbatim>\<open>data\<close>.\<close>

record gol_state =
  heap :: heap
  total_live :: int
  main_data :: gol_data

subsection \<open>\<^verbatim>\<open>count_neighbors\<close>\<close>

text \<open>
  The index expression of lines 262--263:
  \<^verbatim>\<open>(((((i+l) % rows) + rows) % rows) * cols) + ((((j+k) % cols) + cols) % cols)\<close>.
\<close>

definition index_neighbor :: "gol_data \<Rightarrow> int \<Rightarrow> int \<Rightarrow> int \<Rightarrow> int \<Rightarrow> int option" where
  "index_neighbor data i j l k = do {
     r \<leftarrow> int_val (i + l);
     r \<leftarrow> c_rem r (rows data);
     r \<leftarrow> int_val (r + rows data);
     r \<leftarrow> c_rem r (rows data);
     r \<leftarrow> int_val (r * cols data);
     c \<leftarrow> int_val (j + k);
     c \<leftarrow> c_rem c (cols data);
     c \<leftarrow> int_val (c + cols data);
     c \<leftarrow> c_rem c (cols data);
     int_val (r + c)
   }"

text \<open>The inner loop \<^verbatim>\<open>for (int k = -1; k <= 1; k++)\<close>, from \<open>k\<close> on.\<close>

function count_neighbors_k ::
  "heap \<Rightarrow> gol_data \<Rightarrow> int \<Rightarrow> int \<Rightarrow> int \<Rightarrow> int \<Rightarrow> int \<Rightarrow> int option" where
  "count_neighbors_k h data i j l k neighbors =
     (if k \<le> 1 then
        (case index_neighbor data i j l k of
           None \<Rightarrow> None
         | Some idx \<Rightarrow>
             (case array_read h (cells data) idx of
                None \<Rightarrow> None
              | Some c \<Rightarrow>
                  count_neighbors_k h data i j l (k + 1)
                    (if c = 1 then neighbors + 1 else neighbors)))
      else Some neighbors)"
  by pat_completeness auto
termination
  by (relation "measure (\<lambda>(h, data, i, j, l, k, neighbors). nat (2 - k))") auto

text \<open>The outer loop \<^verbatim>\<open>for (int l = -1; l <= 1; l++)\<close>, from \<open>l\<close> on.\<close>

function count_neighbors_l ::
  "heap \<Rightarrow> gol_data \<Rightarrow> int \<Rightarrow> int \<Rightarrow> int \<Rightarrow> int \<Rightarrow> int option" where
  "count_neighbors_l h data i j l neighbors =
     (if l \<le> 1 then
        (case count_neighbors_k h data i j l (- 1) neighbors of
           None \<Rightarrow> None
         | Some n \<Rightarrow> count_neighbors_l h data i j (l + 1) n)
      else Some neighbors)"
  by pat_completeness auto
termination
  by (relation "measure (\<lambda>(h, data, i, j, l, neighbors). nat (2 - l))") auto

definition count_neighbors :: "heap \<Rightarrow> gol_data \<Rightarrow> int \<Rightarrow> int \<Rightarrow> int option" where
  "count_neighbors h data i j = count_neighbors_l h data i j (- 1) 0"

subsection \<open>\<^verbatim>\<open>update_world\<close>\<close>

text \<open>The two statements \<^verbatim>\<open>array[idx] = 1; total_live++;\<close>.\<close>

definition mark_alive :: "heap \<times> int \<Rightarrow> addr \<Rightarrow> int \<Rightarrow> (heap \<times> int) option" where
  "mark_alive w array idx =
     (case array_write (fst w) array idx 1 of
        None \<Rightarrow> None
      | Some h \<Rightarrow> Some (h, snd w + 1))"

text \<open>
  \<open>update_world\<close> reads the cell through \<^verbatim>\<open>data->cells\<close> before it writes through
  \<^verbatim>\<open>array\<close>; it changes the heap and \<^verbatim>\<open>total_live\<close>, which are passed and returned as
  a pair, and nothing of \<^verbatim>\<open>*data\<close>.
\<close>

definition update_world ::
  "heap \<times> int \<Rightarrow> gol_data \<Rightarrow> addr \<Rightarrow> int \<Rightarrow> int \<Rightarrow> int \<Rightarrow> (heap \<times> int) option" where
  "update_world w data array neighbors i j = do {
     let idx = i * cols data + j;
     temp_cell \<leftarrow> array_read (fst w) (cells data) idx;
     h \<leftarrow> array_write (fst w) array idx 0;
     let w = (h, snd w);
     w \<leftarrow> (if temp_cell = 1 then do {
             w \<leftarrow> (if neighbors = 2 then mark_alive w array idx else Some w);
             (if neighbors = 3 then mark_alive w array idx else Some w)
           } else Some w);
     (if temp_cell = 0 then
        (if neighbors = 3 then mark_alive w array idx else Some w)
      else Some w)
   }"

subsection \<open>\<^verbatim>\<open>play_gol\<close>\<close>

text \<open>The body of the two cell loops (lines 353--357).\<close>

definition play_gol_cell ::
  "heap \<times> int \<Rightarrow> gol_data \<Rightarrow> addr \<Rightarrow> int \<Rightarrow> int \<Rightarrow> (heap \<times> int) option" where
  "play_gol_cell w data new_world i j = do {
     idx \<leftarrow> int_val (i * cols data);
     idx \<leftarrow> int_val (idx + j);
     neighbors \<leftarrow> count_neighbors (fst w) data i j;
     temp_cell \<leftarrow> array_read (fst w) (cells data) idx;
     neighbors \<leftarrow> int_val (neighbors - temp_cell);
     update_world w data new_world neighbors i j
   }"

text \<open>\<^verbatim>\<open>for (int j = 0; j < data->cols; j++)\<close>, from \<open>j\<close> on.\<close>

function play_gol_j ::
  "heap \<times> int \<Rightarrow> gol_data \<Rightarrow> addr \<Rightarrow> int \<Rightarrow> int \<Rightarrow> (heap \<times> int) option" where
  "play_gol_j w data new_world i j =
     (if j < cols data then
        (case play_gol_cell w data new_world i j of
           None \<Rightarrow> None
         | Some w' \<Rightarrow> play_gol_j w' data new_world i (j + 1))
      else Some w)"
  by pat_completeness auto
termination
  by (relation "measure (\<lambda>(w, data, new_world, i, j). nat (cols data - j))") auto

text \<open>\<^verbatim>\<open>for (int i = 0; i < data->rows; i++)\<close>, from \<open>i\<close> on.\<close>

function play_gol_i ::
  "heap \<times> int \<Rightarrow> gol_data \<Rightarrow> addr \<Rightarrow> int \<Rightarrow> (heap \<times> int) option" where
  "play_gol_i w data new_world i =
     (if i < rows data then
        (case play_gol_j w data new_world i 0 of
           None \<Rightarrow> None
         | Some w' \<Rightarrow> play_gol_i w' data new_world (i + 1))
      else Some w)"
  by pat_completeness auto
termination
  by (relation "measure (\<lambda>(w, data, new_world, i). nat (rows data - i))") auto

text \<open>
  One iteration of the round loop (lines 350--378): reset the counter, compute every cell
  into \<^verbatim>\<open>new_world\<close>, exchange the two pointers, count the round. The terminal and ParaVis
  output between the exchange and the count reads the state and changes none of it; it is
  left out.
\<close>

definition play_gol_round :: "gol_state \<times> addr \<Rightarrow> (gol_state \<times> addr) option" where
  "play_gol_round e = do {
     let s = fst e;
     let new_world = snd e;
     w \<leftarrow> play_gol_i (heap s, 0) (main_data s) new_world 0;
     let temp_array = cells (main_data s);
     let d = (main_data s)\<lparr>cells := new_world\<rparr>;
     let new_world = temp_array;
     r \<leftarrow> int_val (current_round d + 1);
     let d = d\<lparr>current_round := r\<rparr>;
     Some (\<lparr>heap = fst w, total_live = snd w, main_data = d\<rparr>, new_world)
   }"

text \<open>\<^verbatim>\<open>for (int k = 0; k < data->iters; k++)\<close>, from \<open>k\<close> on.\<close>

function play_gol_k :: "gol_state \<times> addr \<Rightarrow> int \<Rightarrow> (gol_state \<times> addr) option" where
  "play_gol_k e k =
     (if k < iters (main_data (fst e)) then
        (case play_gol_round e of
           None \<Rightarrow> None
         | Some e' \<Rightarrow> play_gol_k e' (k + 1))
      else Some e)"
  by pat_completeness auto
termination
proof (relation "measure (\<lambda>(e, k). nat (iters (main_data (fst e)) - k))")
  show "wf (measure (\<lambda>(e, k). nat (iters (main_data (fst e)) - k)))"
    by simp
next
  fix e :: "gol_state \<times> addr" and k :: int and e' :: "gol_state \<times> addr"
  assume less: "k < iters (main_data (fst e))" and round: "play_gol_round e = Some e'"
  from round have "iters (main_data (fst e')) = iters (main_data (fst e))"
    by (auto simp: play_gol_round_def Let_def split: Option.bind_splits)
  with less show "((e', k + 1), (e, k)) \<in> measure (\<lambda>(e, k). nat (iters (main_data (fst e)) - k))"
    by simp
qed

text \<open>
  \<open>play_gol\<close>: allocate \<^verbatim>\<open>new_world\<close> (with indeterminate contents \<open>junk\<close>), run the
  rounds, free whichever block \<^verbatim>\<open>new_world\<close> points to at the end.
\<close>

definition play_gol :: "(nat \<Rightarrow> int) \<Rightarrow> gol_state \<Rightarrow> gol_state option" where
  "play_gol junk s = do {
     let num_cells = rows (main_data s) * cols (main_data s);
     let m = malloc (heap s) num_cells junk;
     e \<leftarrow> play_gol_k (s\<lparr>heap := snd m\<rparr>, fst m) 0;
     Some ((fst e)\<lparr>heap := free (heap (fst e)) (snd e)\<rparr>)
   }"

subsection \<open>\<^verbatim>\<open>init_game_data_from_args\<close>\<close>

text \<open>
  The configuration file as \<^verbatim>\<open>fscanf\<close> sees it: a sequence of items separated by white
  space, each a decimal integer or something that is none. \<^verbatim>\<open>fscanf(infile, "%d", &v)\<close>
  returns 1 and stores the integer, returns 0 and stores nothing at an item that is no
  integer, returns \<^verbatim>\<open>EOF\<close> (\<open>-1\<close>) and stores nothing at the end of the file. The old
  value of the target is passed in and the new one returned.
\<close>

datatype token = Num int | Junk

fun fscanf_d :: "token list \<Rightarrow> int \<Rightarrow> int \<times> int \<times> token list" where
  "fscanf_d [] v = (- 1, v, [])"
| "fscanf_d (Num n # rest) v = (1, n, rest)"
| "fscanf_d (Junk # rest) v = (0, v, Junk # rest)"

text \<open>\<^verbatim>\<open>fscanf(infile, "%d %d", &x, &y)\<close>: the number of integers stored, or \<^verbatim>\<open>EOF\<close>.\<close>

fun fscanf_d_d :: "token list \<Rightarrow> int \<Rightarrow> int \<Rightarrow> int \<times> int \<times> int \<times> token list" where
  "fscanf_d_d [] x y = (- 1, x, y, [])"
| "fscanf_d_d (Junk # rest) x y = (0, x, y, Junk # rest)"
| "fscanf_d_d (Num n # rest) x y =
     (case fscanf_d rest y of (ret, y', rest') \<Rightarrow> (if ret = 1 then 2 else 1, n, y', rest'))"

text \<open>\<^verbatim>\<open>for (int i = 0; i < num_cells; i++) data->cells[i] = 0;\<close>, from \<open>i\<close> on.\<close>

function init_game_data_i :: "heap \<Rightarrow> addr \<Rightarrow> int \<Rightarrow> int \<Rightarrow> heap option" where
  "init_game_data_i h p num_cells i =
     (if i < num_cells then
        (case array_write h p i 0 of
           None \<Rightarrow> None
         | Some h' \<Rightarrow> init_game_data_i h' p num_cells (i + 1))
      else Some h)"
  by pat_completeness auto
termination
  by (relation "measure (\<lambda>(h, p, num_cells, i). nat (num_cells - i))") auto

text \<open>
  \<^verbatim>\<open>for (int j = 0; j < total_live; j++)\<close>, from \<open>j\<close> on: read a coordinate pair, set the
  cell. \<open>live\<close> is the value of the global \<^verbatim>\<open>total_live\<close>, which the loop does not
  change. The result is 1 with the heap where the loop leaves the function by
  \<^verbatim>\<open>return 1\<close>, and 0 with the heap where it runs to its end. \<open>x\<close> and \<open>y\<close> keep
  their values where \<^verbatim>\<open>fscanf\<close> stores nothing.
\<close>

function init_game_data_j ::
  "heap \<Rightarrow> gol_data \<Rightarrow> int \<Rightarrow> token list \<Rightarrow> int \<Rightarrow> int \<Rightarrow> int \<Rightarrow> (int \<times> heap) option" where
  "init_game_data_j h data live infile x y j =
     (if j < live then
        (case fscanf_d_d infile x y of
           (ret, x', y', infile') \<Rightarrow>
             if ret = 0 then Some (1, h)
             else
               (case Option.bind (int_val (x' * cols data)) (\<lambda>idx. int_val (idx + y')) of
                  None \<Rightarrow> None
                | Some idx \<Rightarrow>
                    (case array_write h (cells data) idx 1 of
                       None \<Rightarrow> None
                     | Some h' \<Rightarrow> init_game_data_j h' data live infile' x' y' (j + 1))))
      else Some (0, h))"
  by pat_completeness auto
termination
  by (relation "measure (\<lambda>(h, data, live, infile, x, y, j). nat (live - j))") auto

text \<open>
  \<open>init_game_data_from_args\<close> returns 0 or 1 and leaves the state changed.
  \<open>s\<close> is the state at the call (\<^verbatim>\<open>main\<close>'s \<^verbatim>\<open>data\<close> is not initialised: its fields are
  whatever \<open>main_data s\<close> holds); \<open>argv1\<close> is the contents of the file \<^verbatim>\<open>argv[1]\<close>
  names, \<open>None\<close> when \<^verbatim>\<open>fopen\<close> fails; \<open>argv2\<close> is \<^verbatim>\<open>atoi(argv[2])\<close>; \<open>junk\<close> is what
  the new block holds; \<open>x\<close> and \<open>y\<close> are the values the two locals hold before they are
  assigned; \<open>fclose_ret\<close> is what \<^verbatim>\<open>fclose\<close> returns.
\<close>

definition init_game_data_from_args ::
  "gol_state \<Rightarrow> token list option \<Rightarrow> int \<Rightarrow> (nat \<Rightarrow> int) \<Rightarrow> int \<Rightarrow> int \<Rightarrow> int
   \<Rightarrow> (int \<times> gol_state) option" where
  "init_game_data_from_args s argv1 argv2 junk x y fclose_ret =
     (case argv1 of
        None \<Rightarrow> Some (1, s)
      | Some infile \<Rightarrow>
          let d = (main_data s)\<lparr>output_mode := argv2, current_round := 0\<rparr>;
              (ret, v, infile) = fscanf_d infile (rows d);
              d = d\<lparr>rows := v\<rparr>
          in if ret = 0 then Some (1, s\<lparr>main_data := d\<rparr>) else
          let (ret, v, infile) = fscanf_d infile (cols d);
              d = d\<lparr>cols := v\<rparr>
          in if ret = 0 then Some (1, s\<lparr>main_data := d\<rparr>) else
          let (ret, v, infile) = fscanf_d infile (iters d);
              d = d\<lparr>iters := v\<rparr>
          in if ret = 0 then Some (1, s\<lparr>main_data := d\<rparr>) else
          let (ret, v, infile) = fscanf_d infile (total_live s);
              s = s\<lparr>total_live := v\<rparr>
          in if ret = 0 then Some (1, s\<lparr>main_data := d\<rparr>) else
          (case int_val (rows d * cols d) of
             None \<Rightarrow> None
           | Some num_cells \<Rightarrow>
               let m = malloc (heap s) num_cells junk;
                   d = d\<lparr>cells := fst m\<rparr>
               in (case init_game_data_i (snd m) (cells d) num_cells 0 of
                     None \<Rightarrow> None
                   | Some h \<Rightarrow>
                       (case init_game_data_j h d (total_live s) infile x y 0 of
                          None \<Rightarrow> None
                        | Some (ret, h) \<Rightarrow>
                            let s = s\<lparr>heap := h, main_data := d\<rparr>
                            in if ret \<noteq> 0 then Some (1, s)
                               else if fclose_ret \<noteq> 0 then Some (1, s)
                               else Some (0, s)))))"

subsection \<open>\<^verbatim>\<open>main\<close>\<close>

text \<open>
  What \<^verbatim>\<open>main\<close> does with the state, in the run modes without the ParaVis library:
  \<open>Exit 1\<close> after a usage or initialisation error; \<open>Report n t\<close> when it prints
  \<^verbatim>\<open>Number of live cells after n rounds: t\<close> and returns 0. In every other mode
  \<open>play_gol\<close> runs on a thread of the library, which is not modelled. Timing and terminal
  output are left out.
\<close>

datatype main_result = Exit int | Report int int | Animation

definition main ::
  "int \<Rightarrow> gol_state \<Rightarrow> token list option \<Rightarrow> int \<Rightarrow> (nat \<Rightarrow> int) \<Rightarrow> (nat \<Rightarrow> int)
   \<Rightarrow> int \<Rightarrow> int \<Rightarrow> int \<Rightarrow> main_result option" where
  "main argc s argv1 argv2 junk junk' x y fclose_ret =
     (if argc < 3 then Some (Exit 1)
      else
        (case init_game_data_from_args s argv1 argv2 junk x y fclose_ret of
           None \<Rightarrow> None
         | Some (ret, s) \<Rightarrow>
             if ret \<noteq> 0 then Some (Exit 1)
             else if output_mode (main_data s) = OUTPUT_NONE
                     \<or> output_mode (main_data s) = OUTPUT_ASCII then
               (case play_gol junk' s of
                  None \<Rightarrow> None
                | Some s \<Rightarrow> Some (Report (iters (main_data s)) (total_live s)))
             else Some Animation))"

section \<open>What one generation computes\<close>

text \<open>
  The functions of this section describe, on a plain list of cells, what the loops of the
  program compute on the heap; the lemmas below prove that they do.

  \<open>neighbor_index\<close> is the row-major index of the cell at offset \<open>(l, k)\<close> from
  \<open>(i, j)\<close> on the torus, with the mathematical remainder (never negative for a positive
  modulus). \<open>scan_block\<close> counts the cells equal to 1 among the nine cells of the block
  around \<open>(i, j)\<close>, in the order of the two loops of \<^verbatim>\<open>count_neighbors\<close>.
\<close>

definition neighbor_index :: "gol_data \<Rightarrow> int \<Rightarrow> int \<Rightarrow> int \<Rightarrow> int \<Rightarrow> int" where
  "neighbor_index data i j l k = ((i + l) mod rows data) * cols data + (j + k) mod cols data"

definition alive_at :: "int list \<Rightarrow> int \<Rightarrow> int" where
  "alive_at b idx = (if b ! nat idx = 1 then 1 else 0)"

definition scan_row :: "gol_data \<Rightarrow> int list \<Rightarrow> int \<Rightarrow> int \<Rightarrow> int \<Rightarrow> int" where
  "scan_row data b i j l = sum_list (map (\<lambda>k. alive_at b (neighbor_index data i j l k)) [-1..1])"

definition scan_block :: "gol_data \<Rightarrow> int list \<Rightarrow> int \<Rightarrow> int \<Rightarrow> int" where
  "scan_block data b i j = sum_list (map (scan_row data b i j) [-1..1])"

text \<open>
  What \<^verbatim>\<open>update_world\<close> leaves in \<^verbatim>\<open>array[idx]\<close> for a cell holding \<open>c\<close> and the
  argument \<open>n\<close>, for any two integers.
\<close>

definition conway :: "int \<Rightarrow> int \<Rightarrow> int" where
  "conway c n = (if (c = 1 \<and> (n = 2 \<or> n = 3)) \<or> (c = 0 \<and> n = 3) then 1 else 0)"

definition next_cell :: "gol_data \<Rightarrow> int list \<Rightarrow> int \<Rightarrow> int" where
  "next_cell data b idx =
     conway (b ! nat idx)
       (scan_block data b (idx div cols data) (idx mod cols data) - b ! nat idx)"

definition next_generation :: "gol_data \<Rightarrow> int list \<Rightarrow> int list" where
  "next_generation data b = map (next_cell data b) [0..rows data * cols data - 1]"

text \<open>The cells \<^verbatim>\<open>data->cells\<close> points to, and the number of them that are alive.\<close>

definition current_cells :: "gol_state \<Rightarrow> int list option" where
  "current_cells s = block_at (heap s) (cells (main_data s))"

definition live_cells :: "int list \<Rightarrow> int" where
  "live_cells b = int (length (filter (\<lambda>c. c = 1) b))"

definition binary :: "int list \<Rightarrow> bool" where
  "binary b = list_all (\<lambda>c. c = 0 \<or> c = 1) b"

definition all_dead :: "int list \<Rightarrow> bool" where
  "all_dead b = list_all (\<lambda>c. c = 0) b"

text \<open>
  The dimensions for which the \<^verbatim>\<open>int\<close> arithmetic of the program does not overflow: in
  \<open>count_neighbors\<close> the sum \<^verbatim>\<open>((i+l) % rows) + rows\<close> reaches \<open>2 * rows - 1\<close>, and
  the number of cells is an \<^verbatim>\<open>int\<close>.
\<close>

definition int_grid :: "gol_data \<Rightarrow> bool" where
  "int_grid data =
     (rows data \<le> 2 ^ 30 \<and> cols data \<le> 2 ^ 30 \<and> rows data * cols data < 2 ^ 31)"

text \<open>
  The world is well formed: both dimensions are positive and within \<open>int_grid\<close>,
  \<^verbatim>\<open>data->cells\<close> points to an allocated block \<open>b\<close> of \<open>rows * cols\<close> cells, and every
  cell is 0 or 1.
\<close>

definition world_ok :: "heap \<Rightarrow> gol_data \<Rightarrow> int list \<Rightarrow> bool" where
  "world_ok h data b =
     (1 \<le> rows data \<and> 1 \<le> cols data \<and> int_grid data \<and>
      block_at h (cells data) = Some b \<and> int (length b) = rows data * cols data \<and>
      binary b)"

text \<open>The round index is an \<^verbatim>\<open>int\<close> and stays one for \<open>n\<close> more rounds.\<close>

definition round_index_ok :: "gol_data \<Rightarrow> nat \<Rightarrow> bool" where
  "round_index_ok data n =
     (- (2 ^ 31) \<le> current_round data \<and> current_round data + int n < 2 ^ 31)"

text \<open>
  The state of the round loop is the program state together with the local pointer
  \<^verbatim>\<open>new_world\<close>. It is well formed with current generation \<open>b\<close> when the world is,
  and \<^verbatim>\<open>new_world\<close> points to another allocated block of the same size.
\<close>

definition engine_ok :: "gol_state \<times> addr \<Rightarrow> int list \<Rightarrow> bool" where
  "engine_ok e b =
     (world_ok (heap (fst e)) (main_data (fst e)) b \<and>
      snd e \<noteq> cells (main_data (fst e)) \<and>
      map_option length (block_at (heap (fst e)) (snd e)) = Some (length b))"

text \<open>The state one round after a well-formed state with current generation \<open>b\<close>.\<close>

definition after_round :: "gol_state \<times> addr \<Rightarrow> int list \<Rightarrow> gol_state \<times> addr" where
  "after_round e b =
     (\<lparr>heap = (heap (fst e))[snd e := Some (next_generation (main_data (fst e)) b)],
       total_live = sum_list (next_generation (main_data (fst e)) b),
       main_data = (main_data (fst e))
          \<lparr>cells := snd e, current_round := current_round (main_data (fst e)) + 1\<rparr>\<rparr>,
      cells (main_data (fst e)))"

text \<open>
  A list of coordinate pairs as it stands in the configuration file, and what the seed
  loop writes for it into a block of cells on a grid with \<open>c\<close> columns.
\<close>

definition seed_tokens :: "(int \<times> int) list \<Rightarrow> token list" where
  "seed_tokens ps = concat (map (\<lambda>(a, b). [Num a, Num b]) ps)"

definition set_seeds :: "int \<Rightarrow> (int \<times> int) list \<Rightarrow> int list \<Rightarrow> int list" where
  "set_seeds c ps blk = fold (\<lambda>(a, b) blk. blk[nat (a * c + b) := 1]) ps blk"

section \<open>The functions of the specification\<close>

text \<open>
  \<open>next_state\<close> is the rule as the specification words it: alive with 2 or 3 live
  neighbors stays alive; alive otherwise dies; dead with exactly 3 live neighbors becomes
  alive; dead otherwise stays dead.
\<close>

definition next_state :: "bool \<Rightarrow> int \<Rightarrow> bool" where
  "next_state current_state live_neighbors =
     (if current_state \<and> (live_neighbors = 2 \<or> live_neighbors = 3) then True
      else if current_state then False
      else if live_neighbors = 3 then True
      else False)"

text \<open>
  \<open>advance_rounds n\<close> invokes the single round \<open>n\<close> times, one after the other.
\<close>

fun advance_rounds :: "nat \<Rightarrow> gol_state \<times> addr \<Rightarrow> (gol_state \<times> addr) option" where
  "advance_rounds 0 e = Some e"
| "advance_rounds (Suc n) e =
     (case play_gol_round e of None \<Rightarrow> None | Some e' \<Rightarrow> advance_rounds n e')"

text \<open>
  \<open>count_live_neighbors\<close> examines the 8 neighbors of \<open>(i, j)\<close> on the torus (the
  offsets \<open>(-1..1, -1..1)\<close> without \<open>(0, 0)\<close>) and returns how many are alive.
\<close>

definition neighbor_offsets :: "(int \<times> int) list" where
  "neighbor_offsets = [(- 1, - 1), (- 1, 0), (- 1, 1), (0, - 1), (0, 1), (1, - 1), (1, 0), (1, 1)]"

definition count_live_neighbors :: "gol_data \<Rightarrow> int list \<Rightarrow> int \<Rightarrow> int \<Rightarrow> int" where
  "count_live_neighbors data b i j =
     int (length (filter (\<lambda>(l, k). b ! nat (neighbor_index data i j l k) = 1) neighbor_offsets))"

section \<open>The model on small worlds\<close>

text \<open>
  A blinker on a 5 by 5 grid: the file \<^verbatim>\<open>5 5 1 3  2 1  2 2  2 3\<close> makes \<open>main\<close> report
  3 live cells after 1 round; the horizontal line has become a vertical one, and after two
  rounds it is horizontal again.
\<close>

lemma blinker_one_round:
  "main 3
     \<lparr>heap = [], total_live = 0,
       main_data = \<lparr>rows = 0, cols = 0, iters = 0, output_mode = 0, cells = 0,
                      current_round = 0\<rparr>\<rparr>
     (Some (map Num [5, 5, 1, 3, 2, 1, 2, 2, 2, 3])) 0 int int 0 0 0
   = Some (Report 1 3) \<and>
   map_option (\<lambda>s. (current_cells s, current_round (main_data s)))
     (play_gol int
        \<lparr>heap = [Some [0, 0, 0, 0, 0,  0, 0, 0, 0, 0,  0, 1, 1, 1, 0,  0, 0, 0, 0, 0,
                      0, 0, 0, 0, 0]],
          total_live = 3,
          main_data = \<lparr>rows = 5, cols = 5, iters = 1, output_mode = 0, cells = 0,
                         current_round = 0\<rparr>\<rparr>)
   = Some (Some [0, 0, 0, 0, 0,  0, 0, 1, 0, 0,  0, 0, 1, 0, 0,  0, 0, 1, 0, 0,
                 0, 0, 0, 0, 0], 1)"
  by code_simp

lemma blinker_two_rounds:
  "map_option (\<lambda>s. (current_cells s, current_round (main_data s), total_live s))
     (play_gol int
        \<lparr>heap = [Some [0, 0, 0, 0, 0,  0, 0, 0, 0, 0,  0, 1, 1, 1, 0,  0, 0, 0, 0, 0,
                      0, 0, 0, 0, 0]],
          total_live = 3,
          main_data = \<lparr>rows = 5, cols = 5, iters = 2, output_mode = 0, cells = 0,
                         current_round = 0\<rparr>\<rparr>)
   = Some (Some [0, 0, 0, 0, 0,  0, 0, 0, 0, 0,  0, 1, 1, 1, 0,  0, 0, 0, 0, 0,
                 0, 0, 0, 0, 0], 2, 3)"
  by code_simp

text \<open>
  The pass over the cells with two buffers, as \<open>play_gol\<close> runs it, and what the same
  pass would compute with \<^verbatim>\<open>new_world\<close> pointing to the current buffer itself: cells
  already updated are then read as neighbors, and the result is another one.
\<close>

lemma pass_separate_buffers:
  "play_gol_i ([Some [1, 1, 0, 1, 0, 0, 0, 0, 0], Some [7, 7, 7, 7, 7, 7, 7, 7, 7]], 0)
     \<lparr>rows = 3, cols = 3, iters = 1, output_mode = 0, cells = 0, current_round = 0\<rparr> 1 0
   = Some ([Some [1, 1, 0, 1, 0, 0, 0, 0, 0], Some [1, 1, 1, 1, 1, 1, 1, 1, 1]], 9)"
  by code_simp

lemma pass_one_buffer:
  "play_gol_i ([Some [1, 1, 0, 1, 0, 0, 0, 0, 0]], 0)
     \<lparr>rows = 3, cols = 3, iters = 1, output_mode = 0, cells = 0, current_round = 0\<rparr> 0 0
   = Some ([Some [1, 1, 1, 1, 0, 0, 0, 0, 0]], 4)"
  by code_simp

text \<open>
  A seed whose index \<open>x * cols + y\<close> lies outside the array: the program writes outside
  the block it allocated.
\<close>

lemma seed_outside_the_array:
  "init_game_data_from_args
     \<lparr>heap = [], total_live = 0,
       main_data = \<lparr>rows = 0, cols = 0, iters = 0, output_mode = 0, cells = 0,
                      current_round = 0\<rparr>\<rparr>
     (Some (map Num [2, 2, 1, 1, 0, 4])) 0 int 0 0 0 = None"
  by code_simp

text \<open>
  Dimensions whose product is no value of \<^verbatim>\<open>int\<close>: for the file \<^verbatim>\<open>50000 50000 1 0\<close>
  the number of cells \<^verbatim>\<open>rows * cols\<close> overflows before anything is allocated.
\<close>

lemma cells_product_outside_int:
  "init_game_data_from_args
     \<lparr>heap = [], total_live = 0,
       main_data = \<lparr>rows = 0, cols = 0, iters = 0, output_mode = 0, cells = 0,
                      current_round = 0\<rparr>\<rparr>
     (Some (map Num [50000, 50000, 1, 0])) 0 int 0 0 0 = None"
  by code_simp

section \<open>Lemmas\<close>

declare count_neighbors_k.simps [simp del] count_neighbors_l.simps [simp del]
  play_gol_j.simps [simp del] play_gol_i.simps [simp del] play_gol_k.simps [simp del]
  init_game_data_i.simps [simp del] init_game_data_j.simps [simp del]

subsection \<open>The remainder and the index\<close>

text \<open>C's remainder after the second \<^verbatim>\<open>%\<close> is the mathematical one; row-major indices stay inside the array.\<close>

lemma c_mod_nonneg: "0 \<le> a \<Longrightarrow> 0 < n \<Longrightarrow> c_mod a n = a mod n"
  by (cases "a = 0") (simp_all add: c_mod_def c_div_def minus_div_mult_eq_mod)

lemma c_mod_neg: "a < 0 \<Longrightarrow> 0 < n \<Longrightarrow> c_mod a n = - ((- a) mod n)"
  by (simp add: c_mod_def c_div_def minus_div_mult_eq_mod algebra_simps flip: minus_div_mult_eq_mod)

lemma c_mod_wrap: 
  assumes "0 < n" shows "c_mod (c_mod a n + n) n = a mod n"
proof (cases "0 \<le> a")
  case True
  then have "c_mod a n = a mod n" using assms by (simp add: c_mod_nonneg)
  moreover have "0 \<le> a mod n + n" using assms
    by (simp add: add_nonneg_nonneg)
  ultimately show ?thesis using assms by (simp add: c_mod_nonneg)
next
  case False
  then have e: "c_mod a n = - ((- a) mod n)" using assms by (simp add: c_mod_neg)
  have "(- a) mod n < n" using assms by simp
  then have "0 \<le> - ((- a) mod n) + n" by simp
  then have "c_mod (- ((- a) mod n) + n) n = (- ((- a) mod n) + n) mod n"
    using assms by (simp add: c_mod_nonneg)
  also have "\<dots> = a mod n"
    by (simp add: mod_minus_eq)
  finally show ?thesis using e by simp
qed

lemma flat_index_bound:
  fixes i j r c :: int
  assumes "0 \<le> i" "i < r" "0 \<le> j" "j < c"
  shows "0 \<le> i * c + j \<and> i * c + j < r * c"
proof -
  have "i * c + j < (i + 1) * c" using assms by (simp add: algebra_simps)
  also have "\<dots> \<le> r * c" using assms by (intro mult_right_mono) auto
  finally show ?thesis using assms by simp
qed

lemma c_mod_small:
  assumes "0 < n" "- 1 \<le> a" "a \<le> n"
  shows "- 1 \<le> c_mod a n \<and> c_mod a n < n"
proof (cases "0 \<le> a")
  case True
  have "0 \<le> a mod n" "a mod n < n" using assms(1) by simp_all
  then show ?thesis unfolding c_mod_nonneg [OF True assms(1)] by linarith
next
  case False
  with assms have a: "a < 0" "- a = 1" by simp_all
  have "0 \<le> (1::int) mod n" "(1::int) mod n \<le> 1"
    using assms(1) by (simp_all add: zmod_le_nonneg_dividend)
  then show ?thesis unfolding c_mod_neg [OF a(1) assms(1)] a(2) using assms(1) by linarith
qed

lemma int_val_Some: "in_int_range v \<Longrightarrow> int_val v = Some v"
  by (simp add: int_val_def)

lemma c_div_in_range:
  assumes "in_int_range a" "0 < b"
  shows "in_int_range (c_div a b)"
proof -
  have q: "0 \<le> \<bar>a\<bar> div b" "\<bar>a\<bar> div b \<le> \<bar>a\<bar>"
    using assms(2) zdiv_mono2 [of "\<bar>a\<bar>" 1 b] by (simp_all add: pos_imp_zdiv_nonneg_iff)
  have "c_div a b = sgn a * (\<bar>a\<bar> div b)"
    using assms(2) by (simp add: c_div_def)
  then have "(0 \<le> c_div a b \<and> c_div a b \<le> a) \<or> (a \<le> c_div a b \<and> c_div a b \<le> 0)"
    using q by (cases "0 \<le> a") (simp_all add: sgn_if)
  then show ?thesis
    using assms(1) unfolding in_int_range_def by linarith
qed

lemma c_rem_pos: "in_int_range a \<Longrightarrow> 0 < b \<Longrightarrow> c_rem a b = Some (c_mod a b)"
  by (simp add: c_rem_def c_div_in_range)

text \<open>
  On a grid within \<open>int_grid\<close> every intermediate value of the index expression is an
  \<^verbatim>\<open>int\<close>, for a cell of the grid and offsets from \<open>-1\<close> to 1.
\<close>

lemma index_neighbor_int_range:
  assumes i: "0 \<le> i" "i < rows data" and j: "0 \<le> j" "j < cols data"
    and l: "- 1 \<le> l" "l \<le> 1" and k: "- 1 \<le> k" "k \<le> 1"
    and grid: "int_grid data"
  shows "in_int_range (i + l) \<and> in_int_range (c_mod (i + l) (rows data)) \<and>
         in_int_range (c_mod (i + l) (rows data) + rows data) \<and>
         in_int_range (c_mod (c_mod (i + l) (rows data) + rows data) (rows data)) \<and>
         in_int_range (c_mod (c_mod (i + l) (rows data) + rows data) (rows data) * cols data) \<and>
         in_int_range (j + k) \<and> in_int_range (c_mod (j + k) (cols data)) \<and>
         in_int_range (c_mod (j + k) (cols data) + cols data) \<and>
         in_int_range (c_mod (c_mod (j + k) (cols data) + cols data) (cols data)) \<and>
         in_int_range (c_mod (c_mod (i + l) (rows data) + rows data) (rows data) * cols data
                       + c_mod (c_mod (j + k) (cols data) + cols data) (cols data))"
proof -
  let ?r = "rows data" and ?c = "cols data"
  have pos: "0 < ?r" "0 < ?c" using i j by simp_all
  have r1: "- 1 \<le> c_mod (i + l) ?r \<and> c_mod (i + l) ?r < ?r"
    using pos i l by (intro c_mod_small) simp_all
  have c1: "- 1 \<le> c_mod (j + k) ?c \<and> c_mod (j + k) ?c < ?c"
    using pos j k by (intro c_mod_small) simp_all
  have r2: "c_mod (c_mod (i + l) ?r + ?r) ?r = (i + l) mod ?r"
    using pos by (simp add: c_mod_wrap)
  have c2: "c_mod (c_mod (j + k) ?c + ?c) ?c = (j + k) mod ?c"
    using pos by (simp add: c_mod_wrap)
  have rb: "0 \<le> (i + l) mod ?r" "(i + l) mod ?r < ?r" using pos by simp_all
  have cb: "0 \<le> (j + k) mod ?c" "(j + k) mod ?c < ?c" using pos by simp_all
  have flat: "0 \<le> (i + l) mod ?r * ?c + (j + k) mod ?c \<and>
              (i + l) mod ?r * ?c + (j + k) mod ?c < ?r * ?c"
    using rb cb by (intro flat_index_bound)
  have prod: "0 \<le> (i + l) mod ?r * ?c" "(i + l) mod ?r * ?c < ?r * ?c"
    using flat_index_bound [of "(i + l) mod ?r" ?r 0 ?c] rb pos by simp_all
  have p30: "(2::int) ^ 30 = 1073741824" and p31: "(2::int) ^ 31 = 2147483648"
    by simp_all
  have small: "?r \<le> 1073741824" "?c \<le> 1073741824" "?r * ?c < 2147483648"
    using grid by (simp_all add: int_grid_def)
  have "in_int_range (i + l)" "in_int_range (j + k)"
    unfolding in_int_range_def p31 using i j l k small by linarith+
  moreover have "in_int_range (c_mod (i + l) ?r)" "in_int_range (c_mod (i + l) ?r + ?r)"
    unfolding in_int_range_def p31 using r1 small by linarith+
  moreover have "in_int_range (c_mod (j + k) ?c)" "in_int_range (c_mod (j + k) ?c + ?c)"
    unfolding in_int_range_def p31 using c1 small by linarith+
  moreover have "in_int_range ((i + l) mod ?r)" "in_int_range ((j + k) mod ?c)"
    unfolding in_int_range_def p31 using rb cb small by linarith+
  moreover have "in_int_range ((i + l) mod ?r * ?c)"
    "in_int_range ((i + l) mod ?r * ?c + (j + k) mod ?c)"
    unfolding in_int_range_def p31 using prod flat small by linarith+
  ultimately show ?thesis
    unfolding r2 c2 by blast
qed

lemma index_neighbor_eq:
  assumes i: "0 \<le> i" "i < rows data" and j: "0 \<le> j" "j < cols data"
    and l: "- 1 \<le> l" "l \<le> 1" and k: "- 1 \<le> k" "k \<le> 1"
    and grid: "int_grid data"
  shows "index_neighbor data i j l k = Some (neighbor_index data i j l k)"
proof -
  have pos: "0 < rows data" "0 < cols data" using i j by simp_all
  note r = index_neighbor_int_range [OF assms]
  have "index_neighbor data i j l k
        = Some (c_mod (c_mod (i + l) (rows data) + rows data) (rows data) * cols data
                + c_mod (c_mod (j + k) (cols data) + cols data) (cols data))"
    using r pos by (simp add: index_neighbor_def int_val_Some c_rem_pos)
  then show ?thesis
    using pos by (simp add: neighbor_index_def c_mod_wrap)
qed

lemma neighbor_index_bound:
  assumes "1 \<le> rows data" "1 \<le> cols data"
  shows "0 \<le> neighbor_index data i j l k \<and> neighbor_index data i j l k < rows data * cols data"
  unfolding neighbor_index_def using assms by (intro flat_index_bound) simp_all

lemma neighbor_index_center:
  "0 \<le> i \<Longrightarrow> i < rows data \<Longrightarrow> 0 \<le> j \<Longrightarrow> j < cols data \<Longrightarrow>
   neighbor_index data i j 0 0 = i * cols data + j"
  by (simp add: neighbor_index_def)

lemma upto_offsets: "[- 1..1] = [- 1, 0, 1::int]"
  by (simp add: upto_rec1)

lemma upto_append:
  fixes a b c :: int
  assumes "a \<le> b" "b \<le> c + 1"
  shows "[a..c] = [a..b - 1] @ [b..c]"
proof (cases "b \<le> c")
  case True
  with assms show ?thesis by (simp add: upto_split1)
next
  case False
  with assms have "b = c + 1" by simp
  then show ?thesis by simp
qed

subsection \<open>Heap access\<close>

lemma block_at_less: "block_at h p = Some b \<Longrightarrow> p < length h"
  by (simp add: block_at_def split: if_splits)

lemma block_at_update:
  "p < length h \<Longrightarrow> block_at (h[p := x]) q = (if q = p then x else block_at h q)"
  by (simp add: block_at_def)

lemma block_at_append:
  "block_at (h @ [x]) p = (if p = length h then x else block_at h p)"
  by (simp add: block_at_def nth_append)

lemma block_at_append_None: "block_at (h @ [None]) p = block_at h p"
  by (simp add: block_at_def nth_append)

lemma block_at_free:
  "p < length h \<Longrightarrow> block_at (free h p) q = (if q = p then None else block_at h q)"
  by (simp add: free_def block_at_def)

lemma array_read_ok:
  "block_at h p = Some b \<Longrightarrow> 0 \<le> idx \<Longrightarrow> idx < int (length b) \<Longrightarrow>
   array_read h p idx = Some (b ! nat idx)"
  by (simp add: array_read_def)

lemma array_write_ok:
  "block_at h p = Some b \<Longrightarrow> 0 \<le> idx \<Longrightarrow> idx < int (length b) \<Longrightarrow>
   array_write h p idx v = Some (h[p := Some (b[nat idx := v])])"
  by (simp add: array_write_def)

lemma world_ok_update:
  "world_ok h data b \<Longrightarrow> nw \<noteq> cells data \<Longrightarrow> nw < length h \<Longrightarrow> world_ok (h[nw := x]) data b"
  by (simp add: world_ok_def block_at_update)

subsection \<open>The neighbor count\<close>

text \<open>\<open>count_neighbors\<close> returns \<open>scan_block\<close> of the current generation.\<close>

lemma read_neighbor:
  assumes "world_ok h data b"
  shows "array_read h (cells data) (neighbor_index data i j l k)
         = Some (b ! nat (neighbor_index data i j l k))"
  using assms neighbor_index_bound [of data i j l k]
  by (intro array_read_ok) (simp_all add: world_ok_def)

lemma count_neighbors_k_eq:
  "world_ok h data b \<Longrightarrow> 0 \<le> i \<Longrightarrow> i < rows data \<Longrightarrow> 0 \<le> j \<Longrightarrow> j < cols data \<Longrightarrow>
   - 1 \<le> l \<Longrightarrow> l \<le> 1 \<Longrightarrow> - 1 \<le> k \<Longrightarrow>
   count_neighbors_k h data i j l k n
     = Some (n + sum_list (map (\<lambda>k. alive_at b (neighbor_index data i j l k)) [k..1]))"
proof (induction h data i j l k n rule: count_neighbors_k.induct)
  case (1 h data i j l k neighbors)
  note ok = \<open>world_ok h data b\<close>
  show ?case
  proof (cases "k \<le> 1")
    case True
    have idx: "index_neighbor data i j l k = Some (neighbor_index data i j l k)"
      using ok "1.prems" True by (intro index_neighbor_eq) (simp_all add: world_ok_def)
    have rd: "array_read h (cells data) (neighbor_index data i j l k)
              = Some (b ! nat (neighbor_index data i j l k))"
      using ok by (rule read_neighbor)
    have "count_neighbors_k h data i j l (k + 1)
            (if b ! nat (neighbor_index data i j l k) = 1 then neighbors + 1 else neighbors)
          = Some ((if b ! nat (neighbor_index data i j l k) = 1 then neighbors + 1 else neighbors)
                  + sum_list (map (\<lambda>k. alive_at b (neighbor_index data i j l k)) [k + 1..1]))"
      using "1.prems" by (intro "1.IH" [OF True idx rd]) simp_all
    with True idx rd show ?thesis
      by (subst count_neighbors_k.simps) (simp add: upto_rec1 [of k 1] alive_at_def)
  next
    case False
    then show ?thesis
      by (subst count_neighbors_k.simps) simp
  qed
qed

lemma count_neighbors_l_eq:
  "world_ok h data b \<Longrightarrow> 0 \<le> i \<Longrightarrow> i < rows data \<Longrightarrow> 0 \<le> j \<Longrightarrow> j < cols data \<Longrightarrow>
   - 1 \<le> l \<Longrightarrow>
   count_neighbors_l h data i j l n = Some (n + sum_list (map (scan_row data b i j) [l..1]))"
proof (induction h data i j l n rule: count_neighbors_l.induct)
  case (1 h data i j l neighbors)
  note ok = \<open>world_ok h data b\<close>
  show ?case
  proof (cases "l \<le> 1")
    case True
    have row: "count_neighbors_k h data i j l (- 1) neighbors
               = Some (neighbors + scan_row data b i j l)"
      using ok "1.prems" True by (simp add: count_neighbors_k_eq scan_row_def)
    have "count_neighbors_l h data i j (l + 1) (neighbors + scan_row data b i j l)
          = Some (neighbors + scan_row data b i j l
                  + sum_list (map (scan_row data b i j) [l + 1..1]))"
      using "1.prems" by (intro "1.IH" [OF True row]) simp_all
    with True row show ?thesis
      by (subst count_neighbors_l.simps) (simp add: upto_rec1 [of l 1])
  next
    case False
    then show ?thesis
      by (subst count_neighbors_l.simps) simp
  qed
qed

lemma count_neighbors_eq:
  "world_ok h data b \<Longrightarrow> 0 \<le> i \<Longrightarrow> i < rows data \<Longrightarrow> 0 \<le> j \<Longrightarrow> j < cols data \<Longrightarrow>
   count_neighbors h data i j = Some (scan_block data b i j)"
  by (simp add: count_neighbors_def count_neighbors_l_eq scan_block_def)

lemma length_filter_sum:
  "int (length (filter P xs)) = sum_list (map (\<lambda>x. if P x then 1 else 0) xs)"
  by (induction xs) simp_all

lemma scan_block_neighbors:
  "scan_block data b i j
   = count_live_neighbors data b i j + alive_at b (neighbor_index data i j 0 0)"
  by (simp add: scan_block_def scan_row_def upto_offsets count_live_neighbors_def
      neighbor_offsets_def length_filter_sum alive_at_def)

lemma count_live_neighbors_range:
  "0 \<le> count_live_neighbors data b i j \<and> count_live_neighbors data b i j \<le> 8"
proof -
  have "length (filter (\<lambda>(l, k). b ! nat (neighbor_index data i j l k) = 1) neighbor_offsets)
        \<le> length neighbor_offsets"
    by (rule length_filter_le)
  then show ?thesis
    by (simp add: count_live_neighbors_def neighbor_offsets_def)
qed

lemma scan_block_range: "0 \<le> scan_block data b i j \<and> scan_block data b i j \<le> 9"
proof -
  have "0 \<le> alive_at b (neighbor_index data i j 0 0) \<and>
        alive_at b (neighbor_index data i j 0 0) \<le> 1"
    by (simp add: alive_at_def)
  then show ?thesis
    using count_live_neighbors_range [of data b i j]
    unfolding scan_block_neighbors by linarith
qed

subsection \<open>The cell loops\<close>

text \<open>The two loops over the cells fill the next buffer from index 0 upwards; after them it holds \<open>next_generation\<close> of the current one, and the counter has grown by its sum.\<close>

lemma mark_alive_ok:
  "block_at h p = Some b \<Longrightarrow> 0 \<le> idx \<Longrightarrow> idx < int (length b) \<Longrightarrow>
   mark_alive (h, t) p idx = Some (h[p := Some (b[nat idx := 1])], t + 1)"
  by (simp add: mark_alive_def array_write_ok)

lemma update_world_eq:
  assumes cur: "block_at h (cells data) = Some b"
    and nxt: "block_at h array = Some nb"
    and idx: "0 \<le> i * cols data + j" "i * cols data + j < int (length b)"
      "i * cols data + j < int (length nb)"
  shows "update_world (h, t) data array n i j
         = Some (h[array := Some (nb[nat (i * cols data + j) := conway (b ! nat (i * cols data + j)) n])],
                 t + conway (b ! nat (i * cols data + j)) n)"
proof -
  let ?idx = "i * cols data + j"
  let ?h0 = "h[array := Some (nb[nat ?idx := 0])]"
  have lt: "array < length h" using nxt by (rule block_at_less)
  have rd: "array_read h (cells data) ?idx = Some (b ! nat ?idx)"
    using cur idx by (simp add: array_read_ok)
  have w0: "array_write h array ?idx 0 = Some ?h0"
    using nxt idx by (simp add: array_write_ok)
  have b0: "block_at ?h0 array = Some (nb[nat ?idx := 0])"
    using lt by (simp add: block_at_update)
  have m0: "mark_alive (?h0, t) array ?idx = Some (h[array := Some (nb[nat ?idx := 1])], t + 1)"
    using mark_alive_ok [OF b0, of ?idx t] idx by simp
  show ?thesis
    by (simp add: update_world_def Let_def rd w0 m0 conway_def)
qed

lemma cell_index_int_range:
  assumes "int_grid data" and "0 \<le> i" "i < rows data" "0 \<le> j" "j < cols data"
  shows "in_int_range (i * cols data)" and "in_int_range (i * cols data + j)"
proof -
  have bound: "0 \<le> i * cols data + j \<and> i * cols data + j < rows data * cols data"
    using assms(2-5) by (intro flat_index_bound)
  have prod: "0 \<le> i * cols data" "i * cols data \<le> i * cols data + j"
    using assms(2-5) by simp_all
  have p31: "(2::int) ^ 31 = 2147483648" by simp
  have small: "rows data * cols data < 2147483648"
    using assms(1) by (simp add: int_grid_def)
  show "in_int_range (i * cols data)" "in_int_range (i * cols data + j)"
    unfolding in_int_range_def p31 using bound prod small by linarith+
qed

lemma play_gol_cell_eq:
  assumes ok: "world_ok h data b"
    and nxt: "block_at h nw = Some nb" "int (length nb) = rows data * cols data"
    and ij: "0 \<le> i" "i < rows data" "0 \<le> j" "j < cols data"
  shows "play_gol_cell (h, t) data nw i j
         = Some (h[nw := Some (nb[nat (i * cols data + j) := next_cell data b (i * cols data + j)])],
                 t + next_cell data b (i * cols data + j))"
proof -
  let ?idx = "i * cols data + j"
  have bound: "0 \<le> ?idx \<and> ?idx < rows data * cols data"
    using ij by (intro flat_index_bound)
  have prod: "0 \<le> i * cols data" "i * cols data \<le> ?idx"
    using ij by simp_all
  have len: "int (length b) = rows data * cols data"
    using ok by (simp add: world_ok_def)
  have cur: "block_at h (cells data) = Some b"
    using ok by (simp add: world_ok_def)
  have p31: "(2::int) ^ 31 = 2147483648" by simp
  have small: "rows data * cols data < 2147483648"
    using ok by (simp add: world_ok_def int_grid_def)
  have r1: "in_int_range (i * cols data)" "in_int_range ?idx"
    unfolding in_int_range_def p31 using bound prod small by linarith+
  have cell: "0 \<le> b ! nat ?idx \<and> b ! nat ?idx \<le> 1"
  proof -
    have "nat ?idx < length b" using bound len by linarith
    moreover have "binary b" using ok by (simp add: world_ok_def)
    ultimately have "b ! nat ?idx = 0 \<or> b ! nat ?idx = 1"
      by (simp add: binary_def list_all_length)
    then show ?thesis by auto
  qed
  have r2: "in_int_range (scan_block data b i j - b ! nat ?idx)"
    unfolding in_int_range_def p31 using scan_block_range [of data b i j] cell by linarith
  have rd: "array_read h (cells data) ?idx = Some (b ! nat ?idx)"
    using cur bound len by (simp add: array_read_ok)
  have dm: "?idx div cols data = i" "?idx mod cols data = j"
    using ij by simp_all
  have nc: "next_cell data b ?idx = conway (b ! nat ?idx) (scan_block data b i j - b ! nat ?idx)"
    by (simp only: next_cell_def dm)
  have upd: "update_world (h, t) data nw (scan_block data b i j - b ! nat ?idx) i j
             = Some (h[nw := Some (nb[nat ?idx := next_cell data b ?idx])],
                     t + next_cell data b ?idx)"
    unfolding nc using bound len nxt(2) by (intro update_world_eq [OF cur nxt(1)]) simp_all
  show ?thesis
    using upd ij
    by (simp add: play_gol_cell_def Let_def count_neighbors_eq [OF ok] rd
        int_val_Some [OF r1(1)] int_val_Some [OF r1(2)] int_val_Some [OF r2])
qed

lemma play_gol_j_eq:
  "world_ok (fst w) data b \<Longrightarrow> block_at (fst w) nw = Some nb \<Longrightarrow>
   int (length nb) = rows data * cols data \<Longrightarrow> nw \<noteq> cells data \<Longrightarrow>
   0 \<le> i \<Longrightarrow> i < rows data \<Longrightarrow> 0 \<le> j \<Longrightarrow> j \<le> cols data \<Longrightarrow>
   play_gol_j w data nw i j
     = Some ((fst w)[nw := Some (take (nat (i * cols data + j)) nb
                @ map (next_cell data b) [i * cols data + j..i * cols data + cols data - 1]
                @ drop (nat (i * cols data + cols data)) nb)],
             snd w + sum_list (map (next_cell data b)
                [i * cols data + j..i * cols data + cols data - 1]))"
proof (induction w data nw i j arbitrary: nb rule: play_gol_j.induct)
  case (1 w data nw i j)
  let ?c = "cols data"
  let ?idx = "i * ?c + j"
  let ?e = "i * ?c + ?c"
  obtain h t where w: "w = (h, t)" by (cases w)
  have lt: "nw < length h" using "1.prems"(2) w by (simp add: block_at_less)
  have at: "h ! nw = Some nb" using "1.prems"(2) w lt by (simp add: block_at_def)
  show ?case
  proof (cases "j < ?c")
    case True
    let ?v = "next_cell data b ?idx"
    let ?nb' = "nb[nat ?idx := ?v]"
    let ?w' = "(h[nw := Some ?nb'], t + ?v)"
    have bound: "0 \<le> ?idx \<and> ?idx < rows data * ?c"
      using "1.prems" True by (intro flat_index_bound) simp_all
    have cell: "play_gol_cell w data nw i j = Some ?w'"
      using "1.prems" True w by (simp add: play_gol_cell_eq)
    have ok': "world_ok (fst ?w') data b"
      using "1.prems" w lt by (simp add: world_ok_update)
    have nxt': "block_at (fst ?w') nw = Some ?nb'"
      using lt by (simp add: block_at_update)
    have len': "int (length ?nb') = rows data * ?c"
      using "1.prems" by simp
    have IH: "play_gol_j ?w' data nw i (j + 1)
       = Some ((fst ?w')[nw := Some (take (nat (?idx + 1)) ?nb'
                @ map (next_cell data b) [?idx + 1..?e - 1]
                @ drop (nat ?e) ?nb')],
             snd ?w' + sum_list (map (next_cell data b) [?idx + 1..?e - 1]))"
      using "1.IH" [OF True cell ok' nxt' len'] "1.prems" True by (simp add: add.assoc)
    have n1: "nat (?idx + 1) = Suc (nat ?idx)"
      using bound by (simp add: nat_add_distrib)
    have inlen: "nat ?idx < length nb"
      using bound "1.prems"(3) by linarith
    have tk: "take (Suc (nat ?idx)) ?nb' = take (nat ?idx) nb @ [?v]"
      using inlen by (simp add: take_Suc_conv_app_nth)
    have dr: "drop (nat ?e) ?nb' = drop (nat ?e) nb"
      using True bound by (intro drop_update_cancel) linarith
    have up: "[?idx..?e - 1] = ?idx # [?idx + 1..?e - 1]"
      using True by (intro upto_rec1) simp
    show ?thesis
      using True cell IH
      by (subst play_gol_j.simps) (simp add: w n1 tk dr up)
  next
    case False
    with "1.prems" have j: "j = ?c" by simp
    have "h[nw := Some nb] = h" using at by (metis list_update_id)
    then show ?thesis
      using False j w by (subst play_gol_j.simps) simp
  qed
qed

lemma play_gol_i_eq:
  "world_ok (fst w) data b \<Longrightarrow> block_at (fst w) nw = Some nb \<Longrightarrow>
   int (length nb) = rows data * cols data \<Longrightarrow> nw \<noteq> cells data \<Longrightarrow>
   0 \<le> i \<Longrightarrow> i \<le> rows data \<Longrightarrow>
   play_gol_i w data nw i
     = Some ((fst w)[nw := Some (take (nat (i * cols data)) nb
                @ map (next_cell data b) [i * cols data..rows data * cols data - 1])],
             snd w + sum_list (map (next_cell data b)
                [i * cols data..rows data * cols data - 1]))"
proof (induction w data nw i arbitrary: nb rule: play_gol_i.induct)
  case (1 w data nw i)
  let ?c = "cols data"
  let ?n = "rows data * ?c"
  let ?f = "next_cell data b"
  obtain h t where w: "w = (h, t)" by (cases w)
  have lt: "nw < length h" using "1.prems"(2) w by (simp add: block_at_less)
  have at: "h ! nw = Some nb" using "1.prems"(2) w lt by (simp add: block_at_def)
  have c1: "1 \<le> ?c" using "1.prems"(1) by (simp add: world_ok_def)
  show ?case
  proof (cases "i < rows data")
    case True
    let ?a = "i * ?c"
    let ?e = "i * ?c + ?c"
    let ?row = "map ?f [?a..?e - 1]"
    let ?nb' = "take (nat ?a) nb @ ?row @ drop (nat ?e) nb"
    let ?w' = "(h[nw := Some ?nb'], t + sum_list ?row)"
    have a0: "0 \<le> ?a" using "1.prems" c1 by simp
    have "(i + 1) * ?c \<le> ?n" using True c1 by (intro mult_right_mono) simp_all
    then have en: "?e \<le> ?n" by (simp add: algebra_simps)
    have row: "play_gol_j w data nw i 0 = Some ?w'"
      using play_gol_j_eq [of w data b nw nb i 0] "1.prems" True c1 w by simp
    have ok': "world_ok (fst ?w') data b"
      using "1.prems" w lt by (simp add: world_ok_update)
    have nxt': "block_at (fst ?w') nw = Some ?nb'"
      using lt by (simp add: block_at_update)
    have len': "int (length ?nb') = ?n"
      using "1.prems"(3) a0 en c1 by simp
    have IH: "play_gol_i ?w' data nw (i + 1)
       = Some ((fst ?w')[nw := Some (take (nat ?e) ?nb' @ map ?f [?e..?n - 1])],
               snd ?w' + sum_list (map ?f [?e..?n - 1]))"
      using "1.IH" [OF True row ok' nxt' len'] "1.prems" True by (simp add: algebra_simps)
    have "length (take (nat ?a) nb @ ?row) = nat ?e"
      using "1.prems"(3) a0 en c1 by (simp add: nat_add_distrib)
    then have tk: "take (nat ?e) ?nb' = take (nat ?a) nb @ ?row"
      by (metis append.assoc append_eq_conv_conj)
    have up: "[?a..?n - 1] = [?a..?e - 1] @ [?e..?n - 1]"
      using c1 en by (intro upto_append) simp_all
    show ?thesis
      using True row IH [unfolded tk]
      by (subst play_gol_i.simps) (simp add: w up)
  next
    case False
    with "1.prems" have i: "i = rows data" by simp
    have "h[nw := Some nb] = h" using at by (metis list_update_id)
    then show ?thesis
      using False i w "1.prems"(3) by (subst play_gol_i.simps) simp
  qed
qed

subsection \<open>Generations\<close>

lemma scan_row_cong:
  "rows d' = rows d \<Longrightarrow> cols d' = cols d \<Longrightarrow> scan_row d' = scan_row d"
  by (intro ext) (simp add: scan_row_def neighbor_index_def)

lemma scan_block_cong:
  "rows d' = rows d \<Longrightarrow> cols d' = cols d \<Longrightarrow> scan_block d' = scan_block d"
  by (intro ext) (simp add: scan_block_def scan_row_cong [of d' d])

lemma next_generation_cong:
  "rows d' = rows d \<Longrightarrow> cols d' = cols d \<Longrightarrow> next_generation d' = next_generation d"
  by (intro ext) (simp add: next_generation_def next_cell_def scan_block_cong [of d' d])

lemma length_next_generation:
  "1 \<le> rows d \<Longrightarrow> 1 \<le> cols d \<Longrightarrow> int (length (next_generation d b)) = rows d * cols d"
  by (simp add: next_generation_def)

lemma next_generation_nth:
  assumes "0 \<le> i" "i < rows d" "0 \<le> j" "j < cols d"
  shows "next_generation d b ! nat (i * cols d + j)
         = conway (b ! nat (i * cols d + j)) (scan_block d b i j - b ! nat (i * cols d + j))"
proof -
  let ?idx = "i * cols d + j"
  have bound: "0 \<le> ?idx \<and> ?idx < rows d * cols d"
    using assms by (intro flat_index_bound)
  have dm: "?idx div cols d = i" "?idx mod cols d = j"
    using assms by simp_all
  have "[0..rows d * cols d - 1] ! nat ?idx = ?idx"
    using bound by (subst nth_upto) simp_all
  moreover have "nat ?idx < length [0..rows d * cols d - 1]"
    using bound by simp
  ultimately have "next_generation d b ! nat ?idx = next_cell d b ?idx"
    by (simp add: next_generation_def del: length_upto)
  then show ?thesis
    by (simp only: next_cell_def dm)
qed

lemma conway_binary: "conway c n = 0 \<or> conway c n = 1"
  by (simp add: conway_def)

lemma binary_nth: "binary b \<Longrightarrow> n < length b \<Longrightarrow> b ! n = 0 \<or> b ! n = 1"
  by (simp add: binary_def list_all_length)

lemma binary_next_generation: "binary (next_generation d b)"
  by (simp add: binary_def next_generation_def next_cell_def list_all_iff conway_binary)

lemma binary_generations: "0 < n \<Longrightarrow> binary ((next_generation d ^^ n) b)"
  by (cases n) (simp_all add: binary_next_generation)

lemma binary_generations_from: "binary b \<Longrightarrow> binary ((next_generation d ^^ n) b)"
  by (cases n) (simp_all add: binary_next_generation)

lemma sum_list_binary: "binary xs \<Longrightarrow> sum_list xs = live_cells xs"
  by (induction xs) (auto simp: binary_def live_cells_def)

lemma all_dead_nth: "all_dead b \<Longrightarrow> n < length b \<Longrightarrow> b ! n = 0"
  by (simp add: all_dead_def list_all_length)

lemma all_dead_alive_at:
  "all_dead b \<Longrightarrow> 0 \<le> idx \<Longrightarrow> idx < int (length b) \<Longrightarrow> alive_at b idx = 0"
  using all_dead_nth [of b "nat idx"] by (simp add: alive_at_def)

lemma all_dead_scan_block:
  assumes "all_dead b" "1 \<le> rows d" "1 \<le> cols d" "int (length b) = rows d * cols d"
  shows "scan_block d b i j = 0"
proof -
  have "alive_at b (neighbor_index d i j l k) = 0" for l k
    using assms neighbor_index_bound [of d i j l k] by (intro all_dead_alive_at) simp_all
  then show ?thesis
    by (simp add: scan_block_def scan_row_def upto_offsets)
qed

lemma all_dead_next_generation:
  assumes "all_dead b" "1 \<le> rows d" "1 \<le> cols d" "int (length b) = rows d * cols d"
  shows "next_generation d b = b"
proof (rule nth_equalityI)
  show len: "length (next_generation d b) = length b"
    using assms length_next_generation [of d b] by linarith
  fix n assume "n < length (next_generation d b)"
  then have n: "n < length b" using len by simp
  then have idx: "int n \<le> rows d * cols d - 1" using assms(4) by linarith
  have "next_cell d b (int n) = 0"
    using assms all_dead_nth [OF assms(1) n]
    by (simp add: next_cell_def all_dead_scan_block conway_def)
  then have "next_generation d b ! n = 0"
    using idx by (simp add: next_generation_def)
  then show "next_generation d b ! n = b ! n"
    using all_dead_nth [OF assms(1) n] by simp
qed

lemma all_dead_generations:
  assumes "all_dead b" "1 \<le> rows d" "1 \<le> cols d" "int (length b) = rows d * cols d"
  shows "(next_generation d ^^ n) b = b"
  by (induction n) (simp_all add: all_dead_next_generation assms)

subsection \<open>Rounds\<close>

lemma engine_ok_current: "engine_ok e b \<Longrightarrow> current_cells (fst e) = Some b"
  by (simp add: engine_ok_def world_ok_def current_cells_def)

lemma world_ok_current: "world_ok (heap s) (main_data s) b \<Longrightarrow> current_cells s = Some b"
  by (simp add: world_ok_def current_cells_def)

lemma play_gol_round_eq:
  assumes "engine_ok e b" and rnd: "in_int_range (current_round (main_data (fst e)) + 1)"
  shows "play_gol_round e = Some (after_round e b)"
proof -
  let ?s = "fst e" and ?nw = "snd e"
  let ?d = "main_data ?s"
  from assms obtain nb where nb: "block_at (heap ?s) ?nw = Some nb" "length nb = length b"
    by (auto simp: engine_ok_def)
  have ok: "world_ok (heap ?s) ?d b" and ne: "?nw \<noteq> cells ?d"
    using assms by (simp_all add: engine_ok_def)
  have len: "int (length nb) = rows ?d * cols ?d"
    using ok nb by (simp add: world_ok_def)
  have r: "0 \<le> rows ?d" using ok by (simp add: world_ok_def)
  have "play_gol_i (heap ?s, 0) ?d ?nw 0
        = Some ((heap ?s)[?nw := Some (next_generation ?d b)], sum_list (next_generation ?d b))"
    using play_gol_i_eq [of "(heap ?s, 0)" ?d b ?nw nb 0] ok nb(1) len ne r
    by (simp add: next_generation_def)
  then show ?thesis
    using rnd by (simp add: play_gol_round_def after_round_def Let_def int_val_Some)
qed

lemma engine_ok_after_round:
  assumes "engine_ok e b"
  shows "engine_ok (after_round e b) (next_generation (main_data (fst e)) b)"
proof -
  let ?s = "fst e" and ?nw = "snd e"
  let ?d = "main_data ?s"
  from assms obtain nb where nb: "block_at (heap ?s) ?nw = Some nb" "length nb = length b"
    by (auto simp: engine_ok_def)
  have ok: "world_ok (heap ?s) ?d b" and ne: "?nw \<noteq> cells ?d"
    using assms by (simp_all add: engine_ok_def)
  have lt: "?nw < length (heap ?s)" using nb(1) by (rule block_at_less)
  have lg: "int (length (next_generation ?d b)) = rows ?d * cols ?d"
    using ok by (simp add: length_next_generation world_ok_def)
  have lb: "int (length b) = rows ?d * cols ?d"
    using ok by (simp add: world_ok_def)
  from lg lb have same: "length (next_generation ?d b) = length b" by linarith
  show ?thesis
    using ok ne lt lg same
    by (simp add: engine_ok_def after_round_def world_ok_def block_at_update
        binary_next_generation int_grid_def)
qed

lemma play_gol_round_iters:
  "play_gol_round e = Some e' \<Longrightarrow> iters (main_data (fst e')) = iters (main_data (fst e))"
  by (auto simp: play_gol_round_def Let_def split: Option.bind_splits)

lemma play_gol_k_advance:
  "play_gol_k e k = advance_rounds (nat (iters (main_data (fst e)) - k)) e"
proof (induction e k rule: play_gol_k.induct)
  case (1 e k)
  show ?case
  proof (cases "k < iters (main_data (fst e))")
    case True
    then have n: "nat (iters (main_data (fst e)) - k) = Suc (nat (iters (main_data (fst e)) - (k + 1)))"
      by simp
    show ?thesis
    proof (cases "play_gol_round e")
      case None
      with True show ?thesis
        by (subst play_gol_k.simps) (simp add: n)
    next
      case (Some e')
      from "1.IH" [OF True Some] play_gol_round_iters [OF Some] True Some show ?thesis
        by (subst play_gol_k.simps) (simp add: n)
    qed
  next
    case False
    then show ?thesis
      by (subst play_gol_k.simps) simp
  qed
qed

lemma round_index_ok_Suc:
  assumes "round_index_ok d (Suc n)"
  shows "in_int_range (current_round d + 1)"
    and "round_index_ok (d\<lparr>cells := c, current_round := current_round d + 1\<rparr>) n"
  using assms by (simp_all add: round_index_ok_def in_int_range_def)

lemma advance_rounds_ok:
  "engine_ok e b \<Longrightarrow> round_index_ok (main_data (fst e)) n \<Longrightarrow>
   \<exists>e'. advance_rounds n e = Some e' \<and>
        engine_ok e' ((next_generation (main_data (fst e)) ^^ n) b) \<and>
        rows (main_data (fst e')) = rows (main_data (fst e)) \<and>
        cols (main_data (fst e')) = cols (main_data (fst e)) \<and>
        iters (main_data (fst e')) = iters (main_data (fst e)) \<and>
        output_mode (main_data (fst e')) = output_mode (main_data (fst e)) \<and>
        current_round (main_data (fst e')) = current_round (main_data (fst e)) + int n \<and>
        (0 < n \<longrightarrow> total_live (fst e')
                     = sum_list ((next_generation (main_data (fst e)) ^^ n) b))"
proof (induction n arbitrary: e b)
  case 0
  then show ?case by simp
next
  case (Suc n)
  let ?d = "main_data (fst e)"
  let ?e1 = "after_round e b"
  let ?b1 = "next_generation ?d b"
  have step: "play_gol_round e = Some ?e1"
    using Suc.prems(1) round_index_ok_Suc(1) [OF Suc.prems(2)] by (rule play_gol_round_eq)
  have ok1: "engine_ok ?e1 ?b1"
    using Suc.prems(1) by (rule engine_ok_after_round)
  have rnd1: "round_index_ok (main_data (fst ?e1)) n"
    using round_index_ok_Suc(2) [OF Suc.prems(2)] by (simp add: after_round_def)
  have g: "next_generation (main_data (fst ?e1)) = next_generation ?d"
    by (rule next_generation_cong) (simp_all add: after_round_def)
  have pw: "(next_generation ?d ^^ n) ?b1 = (next_generation ?d ^^ Suc n) b"
    by (simp add: funpow_swap1)
  from Suc.IH [OF ok1 rnd1] obtain e' where e':
    "advance_rounds n ?e1 = Some e'"
    "engine_ok e' ((next_generation ?d ^^ Suc n) b)"
    "rows (main_data (fst e')) = rows ?d"
    "cols (main_data (fst e')) = cols ?d"
    "iters (main_data (fst e')) = iters ?d"
    "output_mode (main_data (fst e')) = output_mode ?d"
    "current_round (main_data (fst e')) = current_round ?d + 1 + int n"
    "0 < n \<longrightarrow> total_live (fst e') = sum_list ((next_generation ?d ^^ Suc n) b)"
    unfolding g pw by (auto simp: after_round_def)
  have tl: "total_live (fst e') = sum_list ((next_generation ?d ^^ Suc n) b)"
  proof (cases n)
    case 0
    with e'(1) have "e' = ?e1" by simp
    with 0 show ?thesis by (simp add: after_round_def)
  next
    case (Suc m)
    with e'(8) show ?thesis by simp
  qed
  show ?case
    using step e' tl by simp
qed

subsection \<open>The whole run\<close>

lemma malloc_engine_ok:
  assumes "world_ok (heap s) (main_data s) b"
  shows "engine_ok (s\<lparr>heap := snd (malloc (heap s) (rows (main_data s) * cols (main_data s)) junk)\<rparr>,
                    fst (malloc (heap s) (rows (main_data s) * cols (main_data s)) junk)) b"
proof -
  have lt: "cells (main_data s) < length (heap s)"
    using assms by (simp add: world_ok_def block_at_less)
  have "int (length b) = rows (main_data s) * cols (main_data s)"
    using assms by (simp add: world_ok_def)
  then have "nat (rows (main_data s) * cols (main_data s)) = length b"
    by linarith
  with assms lt show ?thesis
    by (simp add: engine_ok_def world_ok_def malloc_def block_at_append)
qed

lemma play_gol_advance:
  "play_gol junk s =
     map_option (\<lambda>e. (fst e)\<lparr>heap := free (heap (fst e)) (snd e)\<rparr>)
       (advance_rounds (nat (iters (main_data s)))
          (s\<lparr>heap := snd (malloc (heap s) (rows (main_data s) * cols (main_data s)) junk)\<rparr>,
           fst (malloc (heap s) (rows (main_data s) * cols (main_data s)) junk)))"
  by (simp add: play_gol_def Let_def play_gol_k_advance map_option_case split: option.split)

lemma play_gol_no_rounds:
  "iters (main_data s) \<le> 0 \<Longrightarrow> play_gol junk s = Some (s\<lparr>heap := heap s @ [None]\<rparr>)"
  by (simp add: play_gol_advance malloc_def free_def)

lemma play_gol_ok:
  assumes "world_ok (heap s) (main_data s) b"
    and rnd: "round_index_ok (main_data s) (nat (iters (main_data s)))"
  shows "\<exists>s'. play_gol junk s = Some s' \<and>
        world_ok (heap s') (main_data s')
          ((next_generation (main_data s) ^^ nat (iters (main_data s))) b) \<and>
        rows (main_data s') = rows (main_data s) \<and>
        cols (main_data s') = cols (main_data s) \<and>
        iters (main_data s') = iters (main_data s) \<and>
        output_mode (main_data s') = output_mode (main_data s) \<and>
        current_round (main_data s')
          = current_round (main_data s) + int (nat (iters (main_data s))) \<and>
        (0 < iters (main_data s) \<longrightarrow> total_live s'
           = sum_list ((next_generation (main_data s) ^^ nat (iters (main_data s))) b))"
proof -
  let ?m = "malloc (heap s) (rows (main_data s) * cols (main_data s)) junk"
  let ?e = "(s\<lparr>heap := snd ?m\<rparr>, fst ?m)"
  let ?n = "nat (iters (main_data s))"
  let ?b' = "(next_generation (main_data s) ^^ ?n) b"
  have "engine_ok ?e b" using assms(1) by (rule malloc_engine_ok)
  moreover have "round_index_ok (main_data (fst ?e)) ?n" using rnd by simp
  ultimately obtain e' where e':
    "advance_rounds ?n ?e = Some e'"
    "engine_ok e' ?b'"
    "rows (main_data (fst e')) = rows (main_data s)"
    "cols (main_data (fst e')) = cols (main_data s)"
    "iters (main_data (fst e')) = iters (main_data s)"
    "output_mode (main_data (fst e')) = output_mode (main_data s)"
    "current_round (main_data (fst e')) = current_round (main_data s) + int ?n"
    "0 < ?n \<longrightarrow> total_live (fst e') = sum_list ?b'"
    using advance_rounds_ok [of ?e b ?n] by auto
  let ?s' = "(fst e')\<lparr>heap := free (heap (fst e')) (snd e')\<rparr>"
  have run: "play_gol junk s = Some ?s'"
    using e'(1) by (simp add: play_gol_advance)
  from e'(2) have lt: "snd e' < length (heap (fst e'))"
    by (auto simp: engine_ok_def dest: block_at_less)
  have ok: "world_ok (heap ?s') (main_data ?s') ?b'"
    using e'(2) lt by (simp add: engine_ok_def world_ok_def block_at_free)
  show ?thesis
    using run ok e'(3-8) by simp
qed

subsection \<open>Initialisation\<close>

lemma init_game_data_i_eq:
  "block_at h p = Some blk \<Longrightarrow> 0 \<le> i \<Longrightarrow> length blk = nat n \<Longrightarrow>
   init_game_data_i h p n i = Some (h[p := Some (take (nat i) blk @ replicate (nat (n - i)) 0)])"
proof (induction h p n i arbitrary: blk rule: init_game_data_i.induct)
  case (1 h p n i)
  have lt: "p < length h" using "1.prems"(1) by (rule block_at_less)
  have at: "h ! p = Some blk" using "1.prems"(1) lt by (simp add: block_at_def)
  show ?case
  proof (cases "i < n")
    case True
    let ?blk' = "blk[nat i := 0]"
    let ?h' = "h[p := Some ?blk']"
    have inlen: "nat i < length blk" using True "1.prems" by simp
    have w: "array_write h p i 0 = Some ?h'"
      using "1.prems" True by (intro array_write_ok) simp_all
    have b': "block_at ?h' p = Some ?blk'" using lt by (simp add: block_at_update)
    have IH: "init_game_data_i ?h' p n (i + 1)
              = Some (?h'[p := Some (take (nat (i + 1)) ?blk' @ replicate (nat (n - (i + 1))) 0)])"
      using "1.IH" [OF True w b'] "1.prems" by simp
    have n1: "nat (i + 1) = Suc (nat i)" using "1.prems"(2) by simp
    have tk: "take (Suc (nat i)) ?blk' = take (nat i) blk @ [0]"
      using inlen by (simp add: take_Suc_conv_app_nth)
    have rp: "replicate (nat (n - i)) (0::int) = 0 # replicate (nat (n - (i + 1))) 0"
      using True by (simp add: nat_diff_distrib' flip: replicate_Suc)
    show ?thesis
      using True w IH
      by (subst init_game_data_i.simps) (simp add: n1 tk rp)
  next
    case False
    then have "take (nat i) blk = blk" using "1.prems" by simp
    moreover have "h[p := Some blk] = h" using at by (metis list_update_id)
    ultimately show ?thesis
      using False by (subst init_game_data_i.simps) simp
  qed
qed

lemma binary_update: "binary blk \<Longrightarrow> binary (blk[n := 1])"
  by (auto simp: binary_def list_all_iff dest!: set_update_subset_insert [THEN subsetD])

lemma binary_replicate: "binary (replicate n 0)"
  by (simp add: binary_def list_all_iff)

lemma init_game_data_j_binary:
  "block_at h (cells d) = Some blk \<Longrightarrow> binary blk \<Longrightarrow>
   init_game_data_j h d live infile x y j = Some (ret, h') \<Longrightarrow>
   \<exists>blk'. block_at h' (cells d) = Some blk' \<and> binary blk' \<and> length blk' = length blk"
proof (induction h d live infile x y j arbitrary: blk rule: init_game_data_j.induct)
  case (1 h d live infile x y j)
  show ?case
  proof (cases "j < live")
    case True
    obtain r x' y' infile' where sc: "fscanf_d_d infile x y = (r, x', y', infile')"
      by (cases "fscanf_d_d infile x y") auto
    show ?thesis
    proof (cases "r = 0")
      case True
      with \<open>j < live\<close> sc "1.prems" show ?thesis
        by (subst (asm) init_game_data_j.simps) auto
    next
      case False
      let ?idx = "x' * cols d + y'"
      from "1.prems"(3) \<open>j < live\<close> sc False
      obtain h1 where iv: "Option.bind (int_val (x' * cols d)) (\<lambda>idx. int_val (idx + y')) = Some ?idx"
        and w: "array_write h (cells d) ?idx 1 = Some h1"
        and rest: "init_game_data_j h1 d live infile' x' y' (j + 1) = Some (ret, h')"
        by (subst (asm) init_game_data_j.simps)
          (auto simp: int_val_def split: option.splits if_splits Option.bind_splits)
      from w "1.prems"(1) have h1: "h1 = h[cells d := Some (blk[nat ?idx := 1])]"
        by (auto simp: array_write_def split: if_splits)
      have lt: "cells d < length h" using "1.prems"(1) by (rule block_at_less)
      have b1: "block_at h1 (cells d) = Some (blk[nat ?idx := 1])"
        using lt by (simp add: h1 block_at_update)
      have bin: "binary (blk[nat ?idx := 1])"
        using "1.prems"(2) by (rule binary_update)
      from "1.IH" [OF \<open>j < live\<close> sc [symmetric] refl refl False iv w b1 bin rest]
      show ?thesis by simp
    qed
  next
    case False
    with "1.prems" show ?thesis
      by (subst (asm) init_game_data_j.simps) auto
  qed
qed

lemma init_game_data_j_seeds:
  "block_at h (cells d) = Some blk \<Longrightarrow> nat (live - j) = length ps \<Longrightarrow>
   \<forall>(a, b) \<in> set ps. in_int_range (a * cols d) \<and> in_int_range (a * cols d + b) \<and>
      0 \<le> a * cols d + b \<and> a * cols d + b < int (length blk) \<Longrightarrow>
   init_game_data_j h d live (seed_tokens ps @ rest) x y j
     = Some (0, h[cells d := Some (set_seeds (cols d) ps blk)])"
proof (induction ps arbitrary: h blk x y j)
  case Nil
  have lt: "cells d < length h" using Nil.prems(1) by (rule block_at_less)
  then have "h ! cells d = Some blk" using Nil.prems(1) by (simp add: block_at_def)
  then have "h[cells d := Some blk] = h" by (metis list_update_id)
  with Nil.prems(2) show ?case
    by (subst init_game_data_j.simps) (simp add: set_seeds_def)
next
  case (Cons p ps)
  obtain a b where p: "p = (a, b)" by (cases p)
  let ?idx = "a * cols d + b"
  let ?blk' = "blk[nat ?idx := 1]"
  let ?h' = "h[cells d := Some ?blk']"
  have lt: "cells d < length h" using Cons.prems(1) by (rule block_at_less)
  have less: "j < live" using Cons.prems(2) by simp
  have idx: "0 \<le> ?idx" "?idx < int (length blk)" using Cons.prems(3) p by simp_all
  have iv: "int_val (a * cols d) = Some (a * cols d)" "int_val ?idx = Some ?idx"
    using Cons.prems(3) p by (simp_all add: int_val_Some)
  have sc: "fscanf_d_d (seed_tokens (p # ps) @ rest) x y = (2, a, b, seed_tokens ps @ rest)"
    by (simp add: seed_tokens_def p)
  have w: "array_write h (cells d) ?idx 1 = Some ?h'"
    using Cons.prems(1) idx by (intro array_write_ok)
  have b': "block_at ?h' (cells d) = Some ?blk'" using lt by (simp add: block_at_update)
  have n': "nat (live - (j + 1)) = length ps" using Cons.prems(2) by simp
  have r': "\<forall>(a, b) \<in> set ps. in_int_range (a * cols d) \<and> in_int_range (a * cols d + b) \<and>
               0 \<le> a * cols d + b \<and> a * cols d + b < int (length ?blk')"
    using Cons.prems(3) by simp
  have IH: "init_game_data_j ?h' d live (seed_tokens ps @ rest) a b (j + 1)
            = Some (0, ?h'[cells d := Some (set_seeds (cols d) ps ?blk')])"
    using b' n' r' by (rule Cons.IH)
  show ?case
    using less sc w IH
    by (subst init_game_data_j.simps) (simp add: set_seeds_def p iv)
qed

lemma init_game_data_from_args_ok:
  assumes n: "nat n = length ps"
    and range: "\<forall>(a, b) \<in> set ps. in_int_range (a * c) \<and> 0 \<le> a * c + b \<and> a * c + b < r * c"
    and size: "in_int_range (r * c)"
  shows "init_game_data_from_args s
           (Some (Num r # Num c # Num it # Num n # seed_tokens ps @ rest)) argv2 junk x y
           fclose_ret
         = Some (if fclose_ret = 0 then 0 else 1,
                 \<lparr>heap = heap s @ [Some (set_seeds c ps (replicate (nat (r * c)) 0))],
                   total_live = n,
                   main_data = \<lparr>rows = r, cols = c, iters = it, output_mode = argv2,
                                  cells = length (heap s), current_round = 0\<rparr>\<rparr>)"
proof -
  let ?d = "\<lparr>rows = r, cols = c, iters = it, output_mode = argv2,
             cells = length (heap s), current_round = 0\<rparr>"
  let ?m = "malloc (heap s) (r * c) junk"
  let ?z = "replicate (nat (r * c)) (0::int)"
  have m: "fst ?m = length (heap s)"
    "block_at (snd ?m) (length (heap s)) = Some (map junk [0..<nat (r * c)])"
    by (simp_all add: malloc_def block_at_append)
  have "init_game_data_i (snd ?m) (length (heap s)) (r * c) 0
        = Some ((snd ?m)[length (heap s) := Some (take (nat 0) (map junk [0..<nat (r * c)])
                   @ replicate (nat (r * c - 0)) 0)])"
    using m(2) by (rule init_game_data_i_eq) simp_all
  then have zero: "init_game_data_i (snd ?m) (length (heap s)) (r * c) 0
                   = Some (heap s @ [Some ?z])"
    by (simp add: malloc_def)
  have bz: "block_at (heap s @ [Some ?z]) (cells ?d) = Some ?z"
    by (simp add: block_at_append)
  have range': "\<forall>(a, b) \<in> set ps. in_int_range (a * c) \<and> in_int_range (a * c + b) \<and>
                   0 \<le> a * c + b \<and> a * c + b < r * c"
  proof -
    have "in_int_range v" if "0 \<le> v" "v < r * c" for v
      using that size unfolding in_int_range_def by linarith
    with range show ?thesis by fastforce
  qed
  have "init_game_data_j (heap s @ [Some ?z]) ?d n (seed_tokens ps @ rest) x y 0
        = Some (0, (heap s @ [Some ?z])[cells ?d := Some (set_seeds (cols ?d) ps ?z)])"
    using bz n range' by (intro init_game_data_j_seeds) auto
  then have seeds: "init_game_data_j (heap s @ [Some ?z]) ?d n (seed_tokens ps @ rest) x y 0
        = Some (0, heap s @ [Some (set_seeds c ps ?z)])"
    by simp
  have d: "main_data s\<lparr>output_mode := argv2, current_round := 0, rows := r, cols := c,
             iters := it, cells := length (heap s)\<rparr> = ?d"
    by simp
  show ?thesis
    by (simp add: init_game_data_from_args_def Let_def int_val_Some [OF size] m(1) zero seeds d)
qed

lemma init_world_binary:
  assumes i: "init_game_data_i (snd (malloc h0 n junk)) (fst (malloc h0 n junk)) n 0 = Some h1"
    and j: "init_game_data_j h1 d live infile x y 0 = Some (ret, h2)"
    and c: "cells d = fst (malloc h0 n junk)"
  shows "\<exists>b. block_at h2 (cells d) = Some b \<and> binary b"
proof -
  let ?m = "malloc h0 n junk"
  have m: "fst ?m = length h0"
    "block_at (snd ?m) (length h0) = Some (map junk [0..<nat n])"
    by (simp_all add: malloc_def block_at_append)
  have "init_game_data_i (snd ?m) (length h0) n 0
        = Some ((snd ?m)[length h0 := Some (take (nat 0) (map junk [0..<nat n])
                   @ replicate (nat (n - 0)) 0)])"
    using m(2) by (rule init_game_data_i_eq) simp_all
  with i have h1: "h1 = h0 @ [Some (replicate (nat n) 0)]"
    by (simp add: malloc_def)
  have "block_at h1 (cells d) = Some (replicate (nat n) 0)"
    by (simp add: h1 c m(1) block_at_append)
  from init_game_data_j_binary [OF this binary_replicate j] show ?thesis by blast
qed

lemma init_game_data_from_args_binary:
  assumes "init_game_data_from_args s argv1 argv2 junk x y fclose_ret = Some (0, s')"
  shows "\<exists>b. current_cells s' = Some b \<and> binary b"
  using assms
  apply (simp add: init_game_data_from_args_def Let_def current_cells_def
      split: option.splits prod.splits if_splits)
  apply (auto dest: init_world_binary)
  done

lemma init_game_data_from_args_ret:
  "init_game_data_from_args s argv1 argv2 junk x y fclose_ret = Some (ret, s') \<Longrightarrow>
   ret = 0 \<or> ret = 1"
  by (auto simp: init_game_data_from_args_def Let_def
      split: option.splits prod.splits if_splits)

lemma init_game_data_from_args_total_live:
  "init_game_data_from_args s (Some (Num r # Num c # Num it # Num n # rest))
     argv2 junk x y fclose_ret = Some (ret, s') \<Longrightarrow>
   total_live s' = n \<and> iters (main_data s') = it \<and> rows (main_data s') = r \<and>
   cols (main_data s') = c"
  by (auto simp: init_game_data_from_args_def Let_def
      split: option.splits prod.splits if_splits)

subsection \<open>Grids outside the range of \<^verbatim>\<open>int\<close>\<close>

text \<open>
  Where the first index that \<open>count_neighbors\<close> computes for a cell is not a value of
  \<^verbatim>\<open>int\<close>, the scan of that cell is undefined, and with it every pass over the cells
  that reaches the cell, the round and the run. On a grid of 1073741825 rows and one column
  this is so in the last row: \<open>(1073741824 - 1) % 1073741825 + 1073741825\<close> is
  \<open>2 ^ 31\<close>.
\<close>

lemma count_neighbors_undefined:
  "index_neighbor data i j (- 1) (- 1) = None \<Longrightarrow> count_neighbors h data i j = None"
  by (simp add: count_neighbors_def count_neighbors_l.simps [of h data i j "- 1" 0]
      count_neighbors_k.simps [of h data i j "- 1" "- 1" 0])

lemma play_gol_cell_undefined:
  "index_neighbor data i j (- 1) (- 1) = None \<Longrightarrow> play_gol_cell w data nw i j = None"
  by (simp add: play_gol_cell_def count_neighbors_undefined split: Option.bind_split)

lemma play_gol_j_undefined:
  "index_neighbor data i c (- 1) (- 1) = None \<Longrightarrow> j \<le> c \<Longrightarrow> c < cols data \<Longrightarrow>
   play_gol_j w data nw i j = None"
proof (induction w data nw i j rule: play_gol_j.induct)
  case (1 w data nw i j)
  have less: "j < cols data" using "1.prems" by simp
  show ?case
  proof (cases "play_gol_cell w data nw i j")
    case None
    with less show ?thesis by (subst play_gol_j.simps) simp
  next
    case (Some w')
    have "j \<noteq> c" using Some "1.prems"(1) by (auto simp: play_gol_cell_undefined)
    with "1.prems"(2) have "j + 1 \<le> c" by simp
    from "1.IH" [OF less Some "1.prems"(1) this "1.prems"(3)] less Some show ?thesis
      by (subst play_gol_j.simps) simp
  qed
qed

lemma play_gol_i_undefined:
  "index_neighbor data r 0 (- 1) (- 1) = None \<Longrightarrow> i \<le> r \<Longrightarrow> r < rows data \<Longrightarrow>
   0 < cols data \<Longrightarrow> play_gol_i w data nw i = None"
proof (induction w data nw i rule: play_gol_i.induct)
  case (1 w data nw i)
  have less: "i < rows data" using "1.prems" by simp
  show ?case
  proof (cases "play_gol_j w data nw i 0")
    case None
    with less show ?thesis by (subst play_gol_i.simps) simp
  next
    case (Some w')
    have "i \<noteq> r"
      using Some play_gol_j_undefined [OF "1.prems"(1) order_refl "1.prems"(4), of w nw] by auto
    with "1.prems"(2) have "i + 1 \<le> r" by simp
    from "1.IH" [OF less Some "1.prems"(1) this "1.prems"(3,4)] less Some show ?thesis
      by (subst play_gol_i.simps) simp
  qed
qed

lemma play_gol_round_undefined:
  "index_neighbor (main_data (fst e)) r 0 (- 1) (- 1) = None \<Longrightarrow> 0 \<le> r \<Longrightarrow>
   r < rows (main_data (fst e)) \<Longrightarrow> 0 < cols (main_data (fst e)) \<Longrightarrow>
   play_gol_round e = None"
  by (simp add: play_gol_round_def play_gol_i_undefined)

lemma play_gol_undefined:
  assumes "index_neighbor (main_data s) r 0 (- 1) (- 1) = None" "0 \<le> r"
    "r < rows (main_data s)" "0 < cols (main_data s)" "0 < iters (main_data s)"
  shows "play_gol junk s = None"
proof -
  let ?m = "malloc (heap s) (rows (main_data s) * cols (main_data s)) junk"
  obtain n where n: "nat (iters (main_data s)) = Suc n"
    using assms(5) by (cases "nat (iters (main_data s))") simp_all
  have "play_gol_round (s\<lparr>heap := snd ?m\<rparr>, fst ?m) = None"
    using assms(1-4) by (intro play_gol_round_undefined [of _ r]) simp_all
  then show ?thesis
    by (simp add: play_gol_advance n)
qed

lemma large_grid_index:
  "index_neighbor
     \<lparr>rows = 1073741825, cols = 1, iters = it, output_mode = m, cells = p, current_round = n\<rparr>
     1073741824 0 (- 1) (- 1) = None"
  by (simp add: index_neighbor_def int_val_def c_rem_def c_div_def c_mod_def in_int_range_def)

section \<open>The per-cell transition\<close>

text \<open>
  Claim C1. For a cell that is dead or alive (0 or 1 in the current buffer) and every
  neighbor count from 0 to 8, \<open>update_world\<close> writes Conway's rule into the next buffer:
  1 where \<open>next_state\<close> says alive, 0 where it says dead, and it counts the cell in
  \<^verbatim>\<open>total_live\<close> exactly when it writes 1.
\<close>

theorem update_world_next_state:
  assumes "block_at h (cells data) = Some b" and "block_at h array = Some nb"
    and "0 \<le> i * cols data + j" and "i * cols data + j < int (length b)"
    and "i * cols data + j < int (length nb)"
    and "b ! nat (i * cols data + j) = (if current_state then 1 else 0)"
    and "0 \<le> live_neighbors" and "live_neighbors \<le> 8"
  shows "update_world (h, t) data array live_neighbors i j
         = Some (h[array := Some (nb[nat (i * cols data + j) :=
                     (if next_state current_state live_neighbors then 1 else 0)])],
                 t + (if next_state current_state live_neighbors then 1 else 0))"
proof -
  have "conway (b ! nat (i * cols data + j)) live_neighbors
        = (if next_state current_state live_neighbors then 1 else 0)"
    using assms(6) by (simp add: conway_def next_state_def)
  then show ?thesis
    using update_world_eq [OF assms(1-5), of t live_neighbors] by simp
qed

theorem update_world_next_state_witness:
  "update_world ([Some [0, 1, 1, 1], Some [5, 5, 5, 5]], 0)
     \<lparr>rows = 2, cols = 2, iters = 1, output_mode = 0, cells = 0, current_round = 0\<rparr> 1 2 0 1
   = Some ([Some [0, 1, 1, 1], Some [5, 1, 5, 5]], 1)"
  using update_world_next_state [of "[Some [0, 1, 1, 1], Some [5, 5, 5, 5]]"
      "\<lparr>rows = 2, cols = 2, iters = 1, output_mode = 0, cells = 0, current_round = 0\<rparr>"
      "[0, 1, 1, 1]" 1 "[5, 5, 5, 5]" 0 1 True 2 0]
  by (simp add: block_at_def next_state_def)

section \<open>Counting neighbors\<close>

text \<open>
  Claim C3, as the specification states it for every grid, does not hold of
  \<open>count_neighbors\<close>: the indices are values of \<^verbatim>\<open>int\<close>. On the grid of 1073741825
  rows and one column with every cell dead, the scan of the cell \<open>(1073741824, 0)\<close>
  starts with the row \<open>(1073741824 - 1) % 1073741825 + 1073741825\<close>, which is
  \<open>2 ^ 31\<close> and no value of \<^verbatim>\<open>int\<close>: the scan has no defined result.
\<close>

theorem count_neighbors_overflows_on_large_grid:
  "count_neighbors [Some (replicate 1073741825 0)]
     \<lparr>rows = 1073741825, cols = 1, iters = 1, output_mode = 0, cells = 0, current_round = 0\<rparr>
     1073741824 0 = None"
  by (rule count_neighbors_undefined) (rule large_grid_index)

text \<open>
  Claim C3, amended. On a well-formed grid of at most \<open>2 ^ 30\<close> rows and \<open>2 ^ 30\<close>
  columns with fewer than \<open>2 ^ 31\<close> cells, all 0 or 1 (\<open>world_ok\<close>), for every cell
  \<open>(i, j)\<close>: \<open>count_neighbors\<close> returns the number of live cells among the 8 neighbor
  offsets on the torus plus the cell's own state, and \<open>play_gol\<close> reads that state from
  the same buffer and subtracts it; so the value it passes to \<open>update_world\<close> is
  \<open>count_live_neighbors\<close>, which lies between 0 and 8. Offsets that land on the same
  cell are counted once each, as on a 1 by 1 grid, where all 8 land on the cell itself.
\<close>

theorem count_neighbors_minus_self:
  assumes "world_ok h data b"
    and "0 \<le> i" and "i < rows data" and "0 \<le> j" and "j < cols data"
  shows "count_neighbors h data i j
           = Some (count_live_neighbors data b i j + b ! nat (i * cols data + j)) \<and>
         array_read h (cells data) (i * cols data + j) = Some (b ! nat (i * cols data + j)) \<and>
         play_gol_cell (h, t) data new_world i j
           = update_world (h, t) data new_world (count_live_neighbors data b i j) i j \<and>
         0 \<le> count_live_neighbors data b i j \<and> count_live_neighbors data b i j \<le> 8"
proof -
  let ?idx = "i * cols data + j"
  have bound: "0 \<le> ?idx \<and> ?idx < rows data * cols data"
    using assms(2-5) by (intro flat_index_bound)
  have len: "int (length b) = rows data * cols data"
    using assms(1) by (simp add: world_ok_def)
  have bin: "binary b" and grid: "int_grid data"
    using assms(1) by (simp_all add: world_ok_def)
  have rd: "array_read h (cells data) ?idx = Some (b ! nat ?idx)"
    using assms(1) bound len by (intro array_read_ok) (simp_all add: world_ok_def)
  have "nat ?idx < length b" using bound len by linarith
  with bin have "b ! nat ?idx = 0 \<or> b ! nat ?idx = 1" by (rule binary_nth)
  then have self: "alive_at b ?idx = b ! nat ?idx"
    by (auto simp: alive_at_def)
  have cn: "count_neighbors h data i j
            = Some (count_live_neighbors data b i j + b ! nat ?idx)"
    using assms(1) self
    by (simp add: count_neighbors_eq scan_block_neighbors neighbor_index_center assms(2-5))
  have range: "0 \<le> count_live_neighbors data b i j \<and> count_live_neighbors data b i j \<le> 8"
    by (rule count_live_neighbors_range)
  have p31: "(2::int) ^ 31 = 2147483648" by simp
  have sub: "in_int_range (count_live_neighbors data b i j)"
    unfolding in_int_range_def p31 using range by linarith
  have cell: "play_gol_cell (h, t) data new_world i j
              = update_world (h, t) data new_world (count_live_neighbors data b i j) i j"
    using cell_index_int_range [OF grid assms(2-5)] sub
    by (simp add: play_gol_cell_def cn rd int_val_Some)
  show ?thesis
    using cn rd cell range by simp
qed

theorem count_neighbors_minus_self_witness:
  "count_neighbors [Some [1]]
     \<lparr>rows = 1, cols = 1, iters = 1, output_mode = 0, cells = 0, current_round = 0\<rparr> 0 0 = Some 9 \<and>
   array_read [Some [1]] 0 0 = Some 1 \<and>
   count_live_neighbors
     \<lparr>rows = 1, cols = 1, iters = 1, output_mode = 0, cells = 0, current_round = 0\<rparr> [1] 0 0 = 8"
  using count_neighbors_minus_self [where h = "[Some [1]]" and b = "[1]" and i = 0 and j = 0
      and data = "\<lparr>rows = 1, cols = 1, iters = 1, output_mode = 0, cells = 0,
                   current_round = 0\<rparr>"]
  by (simp add: world_ok_def int_grid_def block_at_def binary_def count_live_neighbors_def
      neighbor_offsets_def neighbor_index_def)

text \<open>
  Claim C4, as the specification states it for every row in \<open>[0, rows)\<close> and every
  offset, does not hold of the index expression of \<open>count_neighbors\<close>, which is computed
  in \<^verbatim>\<open>int\<close>. On a grid of 1073741825 rows and one column, for the row 1073741824 and
  the offset 0, \<^verbatim>\<open>(i + l) % rows + rows\<close> is \<open>1073741824 + 1073741825 = 2147483649\<close>,
  which is no value of \<^verbatim>\<open>int\<close>: the expression has no defined value, in range or not.
\<close>

theorem index_neighbor_overflows_on_large_grid:
  "index_neighbor
     \<lparr>rows = 1073741825, cols = 1, iters = 1, output_mode = 0, cells = 0, current_round = 0\<rparr>
     1073741824 0 0 0 = None \<and>
   c_mod (1073741824 + 0) 1073741825 + 1073741825 = 2147483649 \<and>
   \<not> in_int_range 2147483649"
  by (simp add: index_neighbor_def int_val_def c_rem_def c_div_def c_mod_def in_int_range_def)

text \<open>
  Claim C4, amended. On a grid of at most \<open>2 ^ 30\<close> rows and \<open>2 ^ 30\<close> columns with
  fewer than \<open>2 ^ 31\<close> cells (\<open>int_grid\<close>), for a cell \<open>(i, j)\<close> of the grid and offsets
  \<open>l\<close>, \<open>k\<close> from \<open>-1\<close> to 1, the row and the column that \<open>count_neighbors\<close> computes
  by the double remainder \<^verbatim>\<open>((i + l) % rows + rows) % rows\<close> (with C's truncating
  \<^verbatim>\<open>%\<close>) lie in the grid, are the coordinates of the neighbor on the torus, and give an
  index inside the array. On the 3 by 3 grid whose only live cell is \<open>(0, 0)\<close>, the count
  for the cell \<open>(2, 2)\<close> is 1: \<open>count_neighbors\<close> returns 1, the cell itself is dead,
  so nothing is subtracted, and \<open>count_live_neighbors\<close> is 1.
\<close>

theorem index_neighbor_in_range:
  "(int_grid data \<and> 0 \<le> i \<and> i < rows data \<and> 0 \<le> j \<and> j < cols data \<and>
    - 1 \<le> l \<and> l \<le> 1 \<and> - 1 \<le> k \<and> k \<le> 1 \<longrightarrow>
    (let r = c_mod (c_mod (i + l) (rows data) + rows data) (rows data);
         c = c_mod (c_mod (j + k) (cols data) + cols data) (cols data)
     in index_neighbor data i j l k = Some (r * cols data + c) \<and>
        0 \<le> r \<and> r < rows data \<and> 0 \<le> c \<and> c < cols data \<and>
        r = (i + l) mod rows data \<and> c = (j + k) mod cols data \<and>
        0 \<le> r * cols data + c \<and> r * cols data + c < rows data * cols data)) \<and>
   count_neighbors [Some [1, 0, 0, 0, 0, 0, 0, 0, 0]]
     \<lparr>rows = 3, cols = 3, iters = 1, output_mode = 0, cells = 0, current_round = 0\<rparr> 2 2
     = Some 1 \<and>
   array_read [Some [1, 0, 0, 0, 0, 0, 0, 0, 0]] 0 (2 * 3 + 2) = Some 0 \<and>
   count_live_neighbors
     \<lparr>rows = 3, cols = 3, iters = 1, output_mode = 0, cells = 0, current_round = 0\<rparr>
     [1, 0, 0, 0, 0, 0, 0, 0, 0] 2 2 = 1"
proof (intro conjI impI)
  assume a: "int_grid data \<and> 0 \<le> i \<and> i < rows data \<and> 0 \<le> j \<and> j < cols data \<and>
    - 1 \<le> l \<and> l \<le> 1 \<and> - 1 \<le> k \<and> k \<le> 1"
  then have pos: "0 < rows data" "0 < cols data" by simp_all
  have r: "c_mod (c_mod (i + l) (rows data) + rows data) (rows data) = (i + l) mod rows data"
    using pos by (simp add: c_mod_wrap)
  have c: "c_mod (c_mod (j + k) (cols data) + cols data) (cols data) = (j + k) mod cols data"
    using pos by (simp add: c_mod_wrap)
  have idx: "index_neighbor data i j l k
             = Some ((i + l) mod rows data * cols data + (j + k) mod cols data)"
    using a by (simp add: index_neighbor_eq neighbor_index_def)
  have "0 \<le> (i + l) mod rows data * cols data + (j + k) mod cols data \<and>
        (i + l) mod rows data * cols data + (j + k) mod cols data < rows data * cols data"
    using pos by (intro flat_index_bound) simp_all
  then show "let r = c_mod (c_mod (i + l) (rows data) + rows data) (rows data);
         c = c_mod (c_mod (j + k) (cols data) + cols data) (cols data)
     in index_neighbor data i j l k = Some (r * cols data + c) \<and>
        0 \<le> r \<and> r < rows data \<and> 0 \<le> c \<and> c < cols data \<and>
        r = (i + l) mod rows data \<and> c = (j + k) mod cols data \<and>
        0 \<le> r * cols data + c \<and> r * cols data + c < rows data * cols data"
    using pos unfolding Let_def r c by (simp add: idx)
next
  let ?d = "\<lparr>rows = 3, cols = 3, iters = 1, output_mode = 0, cells = 0, current_round = 0\<rparr>"
  have "world_ok [Some [1, 0, 0, 0, 0, 0, 0, 0, 0]] ?d [1, 0, 0, 0, 0, 0, 0, 0, 0]"
    by (simp add: world_ok_def int_grid_def block_at_def binary_def)
  then have "count_neighbors [Some [1, 0, 0, 0, 0, 0, 0, 0, 0]] ?d 2 2
             = Some (scan_block ?d [1, 0, 0, 0, 0, 0, 0, 0, 0] 2 2)"
    by (rule count_neighbors_eq) simp_all
  also have "scan_block ?d [1, 0, 0, 0, 0, 0, 0, 0, 0] 2 2 = 1"
    by (simp add: scan_block_def scan_row_def upto_offsets alive_at_def neighbor_index_def)
  finally show "count_neighbors [Some [1, 0, 0, 0, 0, 0, 0, 0, 0]] ?d 2 2 = Some 1" .
next
  show "array_read [Some [1, 0, 0, 0, 0, 0, 0, 0, 0]] 0 (2 * 3 + 2) = Some 0"
    by (simp add: array_read_def block_at_def)
next
  show "count_live_neighbors
     \<lparr>rows = 3, cols = 3, iters = 1, output_mode = 0, cells = 0, current_round = 0\<rparr>
     [1, 0, 0, 0, 0, 0, 0, 0, 0] 2 2 = 1"
    by (simp add: count_live_neighbors_def neighbor_offsets_def neighbor_index_def)
qed

theorem index_neighbor_in_range_witness:
  "index_neighbor
     \<lparr>rows = 3, cols = 3, iters = 1, output_mode = 0, cells = 0, current_round = 0\<rparr> 2 2 1 1
   = Some 0 \<and> c_mod (c_mod (2 + 1) 3 + 3) 3 = 0 \<and> c_mod (c_mod (0 + - 1) 3 + 3) 3 = 2"
  using index_neighbor_in_range [of
     "\<lparr>rows = 3, cols = 3, iters = 1, output_mode = 0, cells = 0, current_round = 0\<rparr>" 2 2 1 1]
    index_neighbor_in_range [of
     "\<lparr>rows = 3, cols = 3, iters = 1, output_mode = 0, cells = 0, current_round = 0\<rparr>" 0 0 "- 1" "- 1"]
  by (simp add: Let_def int_grid_def)

section \<open>The two buffers\<close>

text \<open>
  Claim C2, as the specification states it for every grid, does not hold of the pass over
  the cells: the indices are values of \<^verbatim>\<open>int\<close>. On the grid of 1073741825 rows and one
  column, with two separate buffers of that size, the pass reaches the last row, where the
  index expression of \<open>count_neighbors\<close> leaves \<^verbatim>\<open>int\<close>: the pass has no defined
  result, so nothing holds of what it reads and writes.
\<close>

theorem pass_overflows_on_large_grid:
  "play_gol_i ([Some (replicate 1073741825 0), Some (replicate 1073741825 0)], 0)
     \<lparr>rows = 1073741825, cols = 1, iters = 1, output_mode = 0, cells = 0, current_round = 0\<rparr>
     1 0 = None"
  by (rule play_gol_i_undefined [of _ 1073741824]) (simp_all add: large_grid_index)

text \<open>
  Claim C2, amended: for grids of at most \<open>2 ^ 30\<close> rows and \<open>2 ^ 30\<close> columns with
  fewer than \<open>2 ^ 31\<close> cells, all 0 or 1 (\<open>world_ok\<close>, \<open>engine_ok\<close>), and a round index
  below the largest \<^verbatim>\<open>int\<close>. \<open>play_gol\<close> starts its rounds in a well-formed loop state:
  \<^verbatim>\<open>new_world\<close> and \<^verbatim>\<open>data->cells\<close> point to two different blocks of the grid's size. In
  such a state the pass over all cells returns a heap and a count such that: no block but the one
  \<^verbatim>\<open>new_world\<close> points to has changed, so the current buffer still holds the generation
  \<open>b\<close> it held (it is only read); whatever the next buffer held before, the pass returns
  the same heap and count (it is only written); the next buffer holds \<open>next_generation\<close>
  of \<open>b\<close>, whose cell \<open>(i, j)\<close> is the rule applied to the cell \<open>(i, j)\<close> of \<open>b\<close> and
  the live neighbors counted in \<open>b\<close>; the round then exchanges the two pointers and leaves
  the heap as the pass returned it; and the state after the round is well formed again.
\<close>

theorem round_reads_current_writes_next:
  "(world_ok (heap s) (main_data s) c \<longrightarrow>
      engine_ok
        (s\<lparr>heap := snd (malloc (heap s) (rows (main_data s) * cols (main_data s)) junk)\<rparr>,
         fst (malloc (heap s) (rows (main_data s) * cols (main_data s)) junk)) c) \<and>
   (engine_ok e b \<and> in_int_range (current_round (main_data (fst e)) + 1) \<longrightarrow>
     (\<exists>h' t.
       play_gol_i (heap (fst e), 0) (main_data (fst e)) (snd e) 0 = Some (h', t) \<and>
       (\<forall>p. p \<noteq> snd e \<longrightarrow> block_at h' p = block_at (heap (fst e)) p) \<and>
       block_at h' (cells (main_data (fst e))) = Some b \<and>
       (\<forall>nb. length nb = length b \<longrightarrow>
          play_gol_i ((heap (fst e))[snd e := Some nb], 0) (main_data (fst e)) (snd e) 0
          = Some (h', t)) \<and>
       block_at h' (snd e) = Some (next_generation (main_data (fst e)) b) \<and>
       (\<forall>i j. 0 \<le> i \<and> i < rows (main_data (fst e)) \<and>
              0 \<le> j \<and> j < cols (main_data (fst e)) \<longrightarrow>
          next_generation (main_data (fst e)) b ! nat (i * cols (main_data (fst e)) + j)
          = conway (b ! nat (i * cols (main_data (fst e)) + j))
              (scan_block (main_data (fst e)) b i j
               - b ! nat (i * cols (main_data (fst e)) + j))) \<and>
       play_gol_round e
         = Some (\<lparr>heap = h', total_live = t,
                  main_data = (main_data (fst e))
                    \<lparr>cells := snd e, current_round := current_round (main_data (fst e)) + 1\<rparr>\<rparr>,
                 cells (main_data (fst e))) \<and>
       engine_ok
         (\<lparr>heap = h', total_live = t,
           main_data = (main_data (fst e))
             \<lparr>cells := snd e, current_round := current_round (main_data (fst e)) + 1\<rparr>\<rparr>,
          cells (main_data (fst e)))
         (next_generation (main_data (fst e)) b)))"
proof (intro conjI impI)
  assume "world_ok (heap s) (main_data s) c"
  then show "engine_ok
        (s\<lparr>heap := snd (malloc (heap s) (rows (main_data s) * cols (main_data s)) junk)\<rparr>,
         fst (malloc (heap s) (rows (main_data s) * cols (main_data s)) junk)) c"
    by (rule malloc_engine_ok)
next
  assume "engine_ok e b \<and> in_int_range (current_round (main_data (fst e)) + 1)"
  then have eok: "engine_ok e b"
    and rnd: "in_int_range (current_round (main_data (fst e)) + 1)"
    by simp_all
  let ?s = "fst e" and ?nw = "snd e"
  let ?d = "main_data ?s"
  let ?g = "next_generation ?d b"
  let ?h' = "(heap ?s)[?nw := Some ?g]"
  from eok obtain nb0 where nb0: "block_at (heap ?s) ?nw = Some nb0" "length nb0 = length b"
    by (auto simp: engine_ok_def)
  have ok: "world_ok (heap ?s) ?d b" and ne: "?nw \<noteq> cells ?d"
    using eok by (simp_all add: engine_ok_def)
  have lt: "?nw < length (heap ?s)" using nb0(1) by (rule block_at_less)
  have lenb: "int (length b) = rows ?d * cols ?d"
    using ok by (simp add: world_ok_def)
  have r: "0 \<le> rows ?d" using ok by (simp add: world_ok_def)
  have pass: "play_gol_i (h, 0) ?d ?nw 0 = Some (h[?nw := Some ?g], sum_list ?g)"
    if "world_ok h ?d b" "block_at h ?nw = Some nb" "length nb = length b" for h nb
    using play_gol_i_eq [of "(h, 0)" ?d b ?nw nb 0] that lenb ne r
    by (simp add: next_generation_def)
  have p1: "play_gol_i (heap ?s, 0) ?d ?nw 0 = Some (?h', sum_list ?g)"
    using ok nb0 by (rule pass)
  have p2: "\<forall>p. p \<noteq> ?nw \<longrightarrow> block_at ?h' p = block_at (heap ?s) p"
    using lt by (simp add: block_at_update)
  have p3: "block_at ?h' (cells ?d) = Some b"
    using lt ne ok by (simp add: block_at_update world_ok_def)
  have p4: "\<forall>nb. length nb = length b \<longrightarrow>
        play_gol_i ((heap ?s)[?nw := Some nb], 0) ?d ?nw 0 = Some (?h', sum_list ?g)"
  proof (intro allI impI)
    fix nb :: "int list"
    assume l: "length nb = length b"
    have "world_ok ((heap ?s)[?nw := Some nb]) ?d b"
      using ok ne lt by (rule world_ok_update)
    moreover have "block_at ((heap ?s)[?nw := Some nb]) ?nw = Some nb"
      using lt by (simp add: block_at_update)
    ultimately have "play_gol_i ((heap ?s)[?nw := Some nb], 0) ?d ?nw 0
        = Some ((heap ?s)[?nw := Some nb, ?nw := Some ?g], sum_list ?g)"
      using l by (rule pass)
    then show "play_gol_i ((heap ?s)[?nw := Some nb], 0) ?d ?nw 0 = Some (?h', sum_list ?g)"
      by simp
  qed
  have p5: "block_at ?h' ?nw = Some ?g"
    using lt by (simp add: block_at_update)
  have p6: "\<forall>i j. 0 \<le> i \<and> i < rows ?d \<and> 0 \<le> j \<and> j < cols ?d \<longrightarrow>
        ?g ! nat (i * cols ?d + j)
        = conway (b ! nat (i * cols ?d + j)) (scan_block ?d b i j - b ! nat (i * cols ?d + j))"
    by (simp add: next_generation_nth)
  have p7: "play_gol_round e
       = Some (\<lparr>heap = ?h', total_live = sum_list ?g,
                main_data = ?d\<lparr>cells := ?nw, current_round := current_round ?d + 1\<rparr>\<rparr>,
               cells ?d)"
    using play_gol_round_eq [OF eok rnd] by (simp add: after_round_def)
  have p8: "engine_ok
         (\<lparr>heap = ?h', total_live = sum_list ?g,
           main_data = ?d\<lparr>cells := ?nw, current_round := current_round ?d + 1\<rparr>\<rparr>,
          cells ?d) ?g"
    using engine_ok_after_round [OF eok] by (simp add: after_round_def)
  from p1 p2 p3 p4 p5 p6 p7 p8
  show "\<exists>h' t.
       play_gol_i (heap (fst e), 0) (main_data (fst e)) (snd e) 0 = Some (h', t) \<and>
       (\<forall>p. p \<noteq> snd e \<longrightarrow> block_at h' p = block_at (heap (fst e)) p) \<and>
       block_at h' (cells (main_data (fst e))) = Some b \<and>
       (\<forall>nb. length nb = length b \<longrightarrow>
          play_gol_i ((heap (fst e))[snd e := Some nb], 0) (main_data (fst e)) (snd e) 0
          = Some (h', t)) \<and>
       block_at h' (snd e) = Some (next_generation (main_data (fst e)) b) \<and>
       (\<forall>i j. 0 \<le> i \<and> i < rows (main_data (fst e)) \<and>
              0 \<le> j \<and> j < cols (main_data (fst e)) \<longrightarrow>
          next_generation (main_data (fst e)) b ! nat (i * cols (main_data (fst e)) + j)
          = conway (b ! nat (i * cols (main_data (fst e)) + j))
              (scan_block (main_data (fst e)) b i j
               - b ! nat (i * cols (main_data (fst e)) + j))) \<and>
       play_gol_round e
         = Some (\<lparr>heap = h', total_live = t,
                  main_data = (main_data (fst e))
                    \<lparr>cells := snd e, current_round := current_round (main_data (fst e)) + 1\<rparr>\<rparr>,
                 cells (main_data (fst e))) \<and>
       engine_ok
         (\<lparr>heap = h', total_live = t,
           main_data = (main_data (fst e))
             \<lparr>cells := snd e, current_round := current_round (main_data (fst e)) + 1\<rparr>\<rparr>,
          cells (main_data (fst e)))
         (next_generation (main_data (fst e)) b)"
    by blast
qed

theorem round_reads_current_writes_next_witness:
  "\<exists>h' t.
     play_gol_i ([Some [1, 1, 0, 1, 0, 0, 0, 0, 0], Some [7, 7, 7, 7, 7, 7, 7, 7, 7]], 0)
       \<lparr>rows = 3, cols = 3, iters = 1, output_mode = 0, cells = 0, current_round = 0\<rparr> 1 0
       = Some (h', t) \<and>
     block_at h' 0 = Some [1, 1, 0, 1, 0, 0, 0, 0, 0] \<and>
     block_at h' 1 = Some [1, 1, 1, 1, 1, 1, 1, 1, 1] \<and>
     play_gol_i ([Some [1, 1, 0, 1, 0, 0, 0, 0, 0], Some [0, 1, 2, 3, 4, 5, 6, 7, 8]], 0)
       \<lparr>rows = 3, cols = 3, iters = 1, output_mode = 0, cells = 0, current_round = 0\<rparr> 1 0
       = Some (h', t)"
proof -
  let ?d = "\<lparr>rows = 3, cols = 3, iters = 1, output_mode = 0, cells = 0, current_round = 0\<rparr>"
  let ?b = "[1, 1, 0, 1, 0, 0, 0, 0, 0] :: int list"
  let ?e = "(\<lparr>heap = [Some ?b, Some [7, 7, 7, 7, 7, 7, 7, 7, 7]], total_live = 0,
              main_data = ?d\<rparr>, 1 :: nat)"
  have ok: "engine_ok ?e ?b \<and> in_int_range (current_round (main_data (fst ?e)) + 1)"
    by (simp add: engine_ok_def world_ok_def int_grid_def binary_def block_at_def
        in_int_range_def)
  have g: "next_generation ?d ?b = [1, 1, 1, 1, 1, 1, 1, 1, 1]"
    by (simp add: next_generation_def next_cell_def scan_block_def scan_row_def upto_offsets
        alive_at_def neighbor_index_def conway_def upto_rec1)
  from round_reads_current_writes_next [THEN conjunct2, rule_format, OF ok] obtain h' t where
    f1: "play_gol_i (heap (fst ?e), 0) (main_data (fst ?e)) (snd ?e) 0 = Some (h', t)" and
    f2: "block_at h' (cells (main_data (fst ?e))) = Some ?b" and
    f3: "\<forall>nb. length nb = length ?b \<longrightarrow>
        play_gol_i ((heap (fst ?e))[snd ?e := Some nb], 0) (main_data (fst ?e)) (snd ?e) 0
        = Some (h', t)" and
    f4: "block_at h' (snd ?e) = Some (next_generation (main_data (fst ?e)) ?b)"
    by blast
  have a1: "play_gol_i ([Some ?b, Some [7, 7, 7, 7, 7, 7, 7, 7, 7]], 0) ?d 1 0 = Some (h', t)"
    using f1 by simp
  have a2: "block_at h' 0 = Some ?b"
    using f2 by simp
  have a3: "block_at h' 1 = Some [1, 1, 1, 1, 1, 1, 1, 1, 1]"
    using f4 g by simp
  have a4: "play_gol_i ([Some ?b, Some [0, 1, 2, 3, 4, 5, 6, 7, 8]], 0) ?d 1 0 = Some (h', t)"
    using f3 [rule_format, of "[0, 1, 2, 3, 4, 5, 6, 7, 8]"] by simp
  from a1 a2 a3 a4 show ?thesis by blast
qed

section \<open>The live-cell counter\<close>

text \<open>
  Claim C5, as the specification states it for every grid state, does not hold of the
  rounds of \<open>play_gol\<close>: the indices are values of \<^verbatim>\<open>int\<close>. On the grid of 1073741825
  rows and one column a round is not completed: its pass over the cells reaches the last
  row, where the index expression of \<open>count_neighbors\<close> leaves \<^verbatim>\<open>int\<close>, and there is
  no state after the round in which a count could be compared with a buffer.
\<close>

theorem round_overflows_on_large_grid:
  "advance_rounds 1
     (\<lparr>heap = [Some (replicate 1073741825 0), Some (replicate 1073741825 0)], total_live = 0,
       main_data = \<lparr>rows = 1073741825, cols = 1, iters = 1, output_mode = 0, cells = 0,
                      current_round = 0\<rparr>\<rparr>, 1) = None"
  by (simp add: play_gol_round_undefined [of _ 1073741824] large_grid_index)

text \<open>
  Claim C5, amended: for grids of at most \<open>2 ^ 30\<close> rows and \<open>2 ^ 30\<close> columns with
  fewer than \<open>2 ^ 31\<close> cells, all 0 or 1 (\<open>world_ok\<close>, \<open>engine_ok\<close>), and a round index
  that stays a value of \<^verbatim>\<open>int\<close> (\<open>round_index_ok\<close>). After every completed round
  \<^verbatim>\<open>total_live\<close> is the number of cells equal to 1 in the buffer \<^verbatim>\<open>data->cells\<close> then
  points to: after \<open>n \<ge> 1\<close> rounds from any such loop state, and after \<open>play_gol\<close> has
  run a positive number of iterations from any such world, whatever \<^verbatim>\<open>total_live\<close> was
  before.
\<close>

theorem total_live_counts_current:
  "(engine_ok e b \<and> round_index_ok (main_data (fst e)) n \<and> 0 < n \<longrightarrow>
      (\<exists>e' b'. advance_rounds n e = Some e' \<and> current_cells (fst e') = Some b' \<and>
          total_live (fst e') = live_cells b')) \<and>
   (world_ok (heap s) (main_data s) c \<and>
    round_index_ok (main_data s) (nat (iters (main_data s))) \<and> 0 < iters (main_data s) \<longrightarrow>
      (\<exists>s' c'. play_gol junk s = Some s' \<and> current_cells s' = Some c' \<and>
          total_live s' = live_cells c'))"
proof (intro conjI impI)
  assume a: "engine_ok e b \<and> round_index_ok (main_data (fst e)) n \<and> 0 < n"
  let ?b' = "(next_generation (main_data (fst e)) ^^ n) b"
  from a advance_rounds_ok [of e b n] obtain e' where e':
    "advance_rounds n e = Some e'" "engine_ok e' ?b'" "total_live (fst e') = sum_list ?b'"
    by auto
  have "sum_list ?b' = live_cells ?b'"
    using a by (intro sum_list_binary binary_generations) simp
  with e' show "\<exists>e' b'. advance_rounds n e = Some e' \<and> current_cells (fst e') = Some b' \<and>
          total_live (fst e') = live_cells b'"
    by (auto dest: engine_ok_current)
next
  assume a: "world_ok (heap s) (main_data s) c \<and>
    round_index_ok (main_data s) (nat (iters (main_data s))) \<and> 0 < iters (main_data s)"
  let ?c' = "(next_generation (main_data s) ^^ nat (iters (main_data s))) c"
  from a play_gol_ok [of s c junk] obtain s' where s':
    "play_gol junk s = Some s'" "world_ok (heap s') (main_data s') ?c'"
    "total_live s' = sum_list ?c'"
    by auto
  have "sum_list ?c' = live_cells ?c'"
    using a by (intro sum_list_binary binary_generations) simp
  with s' show "\<exists>s' c'. play_gol junk s = Some s' \<and> current_cells s' = Some c' \<and>
          total_live s' = live_cells c'"
    by (auto dest: world_ok_current)
qed

theorem total_live_counts_current_witness:
  "(\<exists>e' b'. advance_rounds 2
       (\<lparr>heap = [Some [1, 1, 0, 1, 0, 0, 0, 0, 0], Some [7, 7, 7, 7, 7, 7, 7, 7, 7]],
         total_live = 3,
         main_data = \<lparr>rows = 3, cols = 3, iters = 2, output_mode = 0, cells = 0,
                        current_round = 0\<rparr>\<rparr>, 1) = Some e' \<and>
       current_cells (fst e') = Some b' \<and> total_live (fst e') = live_cells b') \<and>
   (\<exists>s' c'. play_gol int
       \<lparr>heap = [Some [1, 1, 0, 1, 0, 0, 0, 0, 0]], total_live = 3,
         main_data = \<lparr>rows = 3, cols = 3, iters = 2, output_mode = 0, cells = 0,
                        current_round = 0\<rparr>\<rparr> = Some s' \<and>
       current_cells s' = Some c' \<and> total_live s' = live_cells c')"
  using total_live_counts_current [of
      "(\<lparr>heap = [Some [1, 1, 0, 1, 0, 0, 0, 0, 0], Some [7, 7, 7, 7, 7, 7, 7, 7, 7]],
         total_live = 3,
         main_data = \<lparr>rows = 3, cols = 3, iters = 2, output_mode = 0, cells = 0,
                        current_round = 0\<rparr>\<rparr>, 1)"
      "[1, 1, 0, 1, 0, 0, 0, 0, 0]" 2
      "\<lparr>heap = [Some [1, 1, 0, 1, 0, 0, 0, 0, 0]], total_live = 3,
         main_data = \<lparr>rows = 3, cols = 3, iters = 2, output_mode = 0, cells = 0,
                        current_round = 0\<rparr>\<rparr>"
      "[1, 1, 0, 1, 0, 0, 0, 0, 0]" int]
  by (simp add: engine_ok_def world_ok_def int_grid_def binary_def round_index_ok_def
      block_at_def)

section \<open>Running the rounds\<close>

text \<open>
  Claim C7. The round loop of \<open>play_gol\<close>, started at \<open>k = 0\<close> with
  \<^verbatim>\<open>data->iters\<close> equal to \<open>N\<close>, returns what \<open>N\<close> single rounds in sequence return
  (\<open>advance_rounds\<close>), and \<open>play_gol\<close> is: allocate the second buffer, run these \<open>N\<close>
  rounds, free the buffer; both for any state at all. With \<open>N = 0\<close> the loop returns its
  state unchanged, and \<open>play_gol\<close> changes nothing but the heap's list of blocks, which
  gains the freed one. From a well-formed loop state (a grid of at most \<open>2 ^ 30\<close> rows
  and \<open>2 ^ 30\<close> columns with fewer than \<open>2 ^ 31\<close> cells, all 0 or 1, and a round index
  that stays a value of \<^verbatim>\<open>int\<close>) the loop does not stop early: it returns with the round
  counter advanced by \<open>N\<close> and the current buffer holding the \<open>N\<close>-th generation after
  the starting one.
\<close>

theorem play_gol_runs_all_rounds:
  "play_gol_k e 0 = advance_rounds (nat (iters (main_data (fst e)))) e \<and>
   play_gol junk s =
     map_option (\<lambda>e'. (fst e')\<lparr>heap := free (heap (fst e')) (snd e')\<rparr>)
       (advance_rounds (nat (iters (main_data s)))
          (s\<lparr>heap := snd (malloc (heap s) (rows (main_data s) * cols (main_data s)) junk)\<rparr>,
           fst (malloc (heap s) (rows (main_data s) * cols (main_data s)) junk))) \<and>
   (iters (main_data (fst e)) = 0 \<longrightarrow> play_gol_k e 0 = Some e) \<and>
   (iters (main_data s) = 0 \<longrightarrow> play_gol junk s = Some (s\<lparr>heap := heap s @ [None]\<rparr>)) \<and>
   (engine_ok e b \<and>
    round_index_ok (main_data (fst e)) (nat (iters (main_data (fst e)))) \<longrightarrow>
      (\<exists>e'. play_gol_k e 0 = Some e' \<and>
         current_round (main_data (fst e'))
           = current_round (main_data (fst e)) + int (nat (iters (main_data (fst e)))) \<and>
         current_cells (fst e')
           = Some ((next_generation (main_data (fst e)) ^^ nat (iters (main_data (fst e)))) b)))"
proof (intro conjI impI)
  show eq: "play_gol_k e 0 = advance_rounds (nat (iters (main_data (fst e)))) e"
    using play_gol_k_advance [of e 0] by simp
  show "play_gol junk s =
     map_option (\<lambda>e'. (fst e')\<lparr>heap := free (heap (fst e')) (snd e')\<rparr>)
       (advance_rounds (nat (iters (main_data s)))
          (s\<lparr>heap := snd (malloc (heap s) (rows (main_data s) * cols (main_data s)) junk)\<rparr>,
           fst (malloc (heap s) (rows (main_data s) * cols (main_data s)) junk)))"
    by (rule play_gol_advance)
  show "play_gol_k e 0 = Some e" if "iters (main_data (fst e)) = 0"
    using that eq by simp
  show "play_gol junk s = Some (s\<lparr>heap := heap s @ [None]\<rparr>)" if "iters (main_data s) = 0"
    using that by (simp add: play_gol_no_rounds)
  show "\<exists>e'. play_gol_k e 0 = Some e' \<and>
         current_round (main_data (fst e'))
           = current_round (main_data (fst e)) + int (nat (iters (main_data (fst e)))) \<and>
         current_cells (fst e')
           = Some ((next_generation (main_data (fst e)) ^^ nat (iters (main_data (fst e)))) b)"
    if a: "engine_ok e b \<and>
      round_index_ok (main_data (fst e)) (nat (iters (main_data (fst e))))"
  proof -
    let ?n = "nat (iters (main_data (fst e)))"
    from a have ok: "engine_ok e b" and rnd: "round_index_ok (main_data (fst e)) ?n"
      by simp_all
    from advance_rounds_ok [OF ok rnd] obtain e' where e':
      "advance_rounds ?n e = Some e'"
      "engine_ok e' ((next_generation (main_data (fst e)) ^^ ?n) b)"
      "current_round (main_data (fst e')) = current_round (main_data (fst e)) + int ?n"
      by blast
    from e'(2) have "current_cells (fst e')
        = Some ((next_generation (main_data (fst e)) ^^ ?n) b)"
      by (rule engine_ok_current)
    with e'(1,3) eq show ?thesis by simp
  qed
qed

theorem play_gol_runs_all_rounds_witness:
  "\<exists>e'. play_gol_k
       (\<lparr>heap = [Some [1, 1, 0, 1, 0, 0, 0, 0, 0], Some [7, 7, 7, 7, 7, 7, 7, 7, 7]],
         total_live = 3,
         main_data = \<lparr>rows = 3, cols = 3, iters = 2, output_mode = 0, cells = 0,
                        current_round = 0\<rparr>\<rparr>, 1) 0 = Some e' \<and>
      current_round (main_data (fst e')) = 2 \<and>
      current_cells (fst e') = Some [0, 0, 0, 0, 0, 0, 0, 0, 0]"
proof -
  let ?d = "\<lparr>rows = 3, cols = 3, iters = 2, output_mode = 0, cells = 0, current_round = 0\<rparr>"
  let ?b = "[1, 1, 0, 1, 0, 0, 0, 0, 0] :: int list"
  let ?e = "(\<lparr>heap = [Some ?b, Some [7, 7, 7, 7, 7, 7, 7, 7, 7]], total_live = 3,
              main_data = ?d\<rparr>, 1 :: nat)"
  have ok: "engine_ok ?e ?b \<and>
      round_index_ok (main_data (fst ?e)) (nat (iters (main_data (fst ?e))))"
    by (simp add: engine_ok_def world_ok_def int_grid_def binary_def round_index_ok_def
        block_at_def)
  have g1: "next_generation ?d ?b = [1, 1, 1, 1, 1, 1, 1, 1, 1]"
    by (simp add: next_generation_def next_cell_def scan_block_def scan_row_def upto_offsets
        alive_at_def neighbor_index_def conway_def upto_rec1)
  have g2: "next_generation ?d [1, 1, 1, 1, 1, 1, 1, 1, 1] = [0, 0, 0, 0, 0, 0, 0, 0, 0]"
    by (simp add: next_generation_def next_cell_def scan_block_def scan_row_def upto_offsets
        alive_at_def neighbor_index_def conway_def upto_rec1)
  have pw: "(next_generation ?d ^^ 2) ?b = [0, 0, 0, 0, 0, 0, 0, 0, 0]"
    by (simp add: numeral_2_eq_2 g1 g2)
  from play_gol_runs_all_rounds [where e = ?e and b = ?b] ok
  have "\<exists>e'. play_gol_k ?e 0 = Some e' \<and>
         current_round (main_data (fst e'))
           = current_round (main_data (fst ?e)) + int (nat (iters (main_data (fst ?e)))) \<and>
         current_cells (fst e')
           = Some ((next_generation (main_data (fst ?e)) ^^ nat (iters (main_data (fst ?e)))) ?b)"
    by blast
  then show ?thesis
    using pw by simp
qed

section \<open>The empty grid\<close>

text \<open>
  Claim C8, as the specification states it for every grid size, does not hold of
  \<open>play_gol\<close>: the indices are values of \<^verbatim>\<open>int\<close>. On the all-dead grid of 1073741825
  rows and one column, one iteration of \<open>play_gol\<close> reaches the last row, where the index
  expression of \<open>count_neighbors\<close> leaves \<^verbatim>\<open>int\<close>: the run has no defined result, and
  no grid, all dead or not, is what it yields.
\<close>

theorem all_dead_large_grid_overflows:
  "all_dead (replicate 1073741825 0) \<and>
   play_gol int
     \<lparr>heap = [Some (replicate 1073741825 0)], total_live = 0,
       main_data = \<lparr>rows = 1073741825, cols = 1, iters = 1, output_mode = 0, cells = 0,
                      current_round = 0\<rparr>\<rparr> = None"
  using play_gol_undefined [of
     "\<lparr>heap = [Some (replicate 1073741825 0)], total_live = 0,
       main_data = \<lparr>rows = 1073741825, cols = 1, iters = 1, output_mode = 0, cells = 0,
                      current_round = 0\<rparr>\<rparr>" 1073741824 int]
  by (simp add: large_grid_index all_dead_def list_all_iff)

text \<open>
  Claim C8, amended: for grids of at least one row and one column and at most \<open>2 ^ 30\<close>
  rows and \<open>2 ^ 30\<close> columns with fewer than \<open>2 ^ 31\<close> cells (\<open>world_ok\<close>,
  \<open>engine_ok\<close>), and a round index that stays a value of \<^verbatim>\<open>int\<close> (\<open>round_index_ok\<close>).
  From such a state whose current buffer holds only dead cells, any number \<open>n\<close> of rounds
  returns a state whose current buffer holds the same cells, all dead; and so does
  \<open>play_gol\<close>, whatever \<^verbatim>\<open>data->iters\<close> is.
\<close>

theorem all_dead_stays_all_dead:
  "(engine_ok e b \<and> round_index_ok (main_data (fst e)) n \<and> all_dead b \<longrightarrow>
      (\<exists>e'. advance_rounds n e = Some e' \<and> current_cells (fst e') = Some b)) \<and>
   (world_ok (heap s) (main_data s) c \<and>
    round_index_ok (main_data s) (nat (iters (main_data s))) \<and> all_dead c \<longrightarrow>
      (\<exists>s'. play_gol junk s = Some s' \<and> current_cells s' = Some c))"
proof (intro conjI impI)
  assume a: "engine_ok e b \<and> round_index_ok (main_data (fst e)) n \<and> all_dead b"
  then have "(next_generation (main_data (fst e)) ^^ n) b = b"
    by (intro all_dead_generations) (simp_all add: engine_ok_def world_ok_def)
  with a advance_rounds_ok [of e b n] obtain e' where
    "advance_rounds n e = Some e'" "engine_ok e' b"
    by auto
  then show "\<exists>e'. advance_rounds n e = Some e' \<and> current_cells (fst e') = Some b"
    by (auto dest: engine_ok_current)
next
  assume a: "world_ok (heap s) (main_data s) c \<and>
    round_index_ok (main_data s) (nat (iters (main_data s))) \<and> all_dead c"
  then have "(next_generation (main_data s) ^^ nat (iters (main_data s))) c = c"
    by (intro all_dead_generations) (simp_all add: world_ok_def)
  with a play_gol_ok [of s c junk] obtain s' where
    "play_gol junk s = Some s'" "world_ok (heap s') (main_data s') c"
    by auto
  then show "\<exists>s'. play_gol junk s = Some s' \<and> current_cells s' = Some c"
    by (auto dest: world_ok_current)
qed

theorem all_dead_stays_all_dead_witness:
  "(\<exists>e'. advance_rounds 5
       (\<lparr>heap = [Some [0, 0], Some [7, 7]], total_live = 0,
         main_data = \<lparr>rows = 1, cols = 2, iters = 5, output_mode = 0, cells = 0,
                        current_round = 0\<rparr>\<rparr>, 1) = Some e' \<and>
       current_cells (fst e') = Some [0, 0]) \<and>
   (\<exists>s'. play_gol int
       \<lparr>heap = [Some [0, 0]], total_live = 0,
         main_data = \<lparr>rows = 1, cols = 2, iters = 5, output_mode = 0, cells = 0,
                        current_round = 0\<rparr>\<rparr> = Some s' \<and>
       current_cells s' = Some [0, 0])"
  using all_dead_stays_all_dead [of
      "(\<lparr>heap = [Some [0, 0], Some [7, 7]], total_live = 0,
         main_data = \<lparr>rows = 1, cols = 2, iters = 5, output_mode = 0, cells = 0,
                        current_round = 0\<rparr>\<rparr>, 1)"
      "[0, 0]" 5
      "\<lparr>heap = [Some [0, 0]], total_live = 0,
         main_data = \<lparr>rows = 1, cols = 2, iters = 5, output_mode = 0, cells = 0,
                        current_round = 0\<rparr>\<rparr>"
      "[0, 0]" int]
  by (simp add: engine_ok_def world_ok_def int_grid_def binary_def round_index_ok_def
      block_at_def all_dead_def)

section \<open>Initialisation\<close>

text \<open>
  Claim C6, as the specification states it, does not hold of \<open>init_game_data_from_args\<close>:
  the function checks neither the dimensions, nor the seed coordinates, nor the number of
  rounds. It returns 0, with the state set up, for a grid of 0 rows; for the seed
  \<open>(0, 3)\<close> on a 2 by 2 grid, whose column is outside the grid and whose index 3 is the
  cell \<open>(1, 1)\<close>; and for \<open>-1\<close> rounds.
\<close>

theorem init_accepts_invalid_configurations:
  "init_game_data_from_args
     \<lparr>heap = [], total_live = 0,
       main_data = \<lparr>rows = 0, cols = 0, iters = 0, output_mode = 0, cells = 0,
                      current_round = 0\<rparr>\<rparr>
     (Some [Num 0, Num 3, Num 5, Num 0]) 0 int 0 0 0
   = Some (0, \<lparr>heap = [Some []], total_live = 0,
                main_data = \<lparr>rows = 0, cols = 3, iters = 5, output_mode = 0, cells = 0,
                               current_round = 0\<rparr>\<rparr>) \<and>
   init_game_data_from_args
     \<lparr>heap = [], total_live = 0,
       main_data = \<lparr>rows = 0, cols = 0, iters = 0, output_mode = 0, cells = 0,
                      current_round = 0\<rparr>\<rparr>
     (Some [Num 2, Num 2, Num 1, Num 1, Num 0, Num 3]) 0 int 0 0 0
   = Some (0, \<lparr>heap = [Some [0, 0, 0, 1]], total_live = 1,
                main_data = \<lparr>rows = 2, cols = 2, iters = 1, output_mode = 0, cells = 0,
                               current_round = 0\<rparr>\<rparr>) \<and>
   init_game_data_from_args
     \<lparr>heap = [], total_live = 0,
       main_data = \<lparr>rows = 0, cols = 0, iters = 0, output_mode = 0, cells = 0,
                      current_round = 0\<rparr>\<rparr>
     (Some [Num 3, Num 3, Num (- 1), Num 0]) 0 int 0 0 0
   = Some (0, \<lparr>heap = [Some [0, 0, 0, 0, 0, 0, 0, 0, 0]], total_live = 0,
                main_data = \<lparr>rows = 3, cols = 3, iters = - 1, output_mode = 0, cells = 0,
                               current_round = 0\<rparr>\<rparr>)"
proof (intro conjI)
  let ?s = "\<lparr>heap = [], total_live = 0,
       main_data = \<lparr>rows = 0, cols = 0, iters = 0, output_mode = 0, cells = 0,
                      current_round = 0\<rparr>\<rparr>"
  show "init_game_data_from_args ?s (Some [Num 0, Num 3, Num 5, Num 0]) 0 int 0 0 0
   = Some (0, \<lparr>heap = [Some []], total_live = 0,
                main_data = \<lparr>rows = 0, cols = 3, iters = 5, output_mode = 0, cells = 0,
                               current_round = 0\<rparr>\<rparr>)"
    using init_game_data_from_args_ok [of 0 "[]" 3 0 ?s 5 "[]" 0 int 0 0 0]
    by (simp add: seed_tokens_def set_seeds_def in_int_range_def)
  show "init_game_data_from_args ?s (Some [Num 2, Num 2, Num 1, Num 1, Num 0, Num 3]) 0 int 0 0 0
   = Some (0, \<lparr>heap = [Some [0, 0, 0, 1]], total_live = 1,
                main_data = \<lparr>rows = 2, cols = 2, iters = 1, output_mode = 0, cells = 0,
                               current_round = 0\<rparr>\<rparr>)"
    using init_game_data_from_args_ok [of 1 "[(0, 3)]" 2 2 ?s 1 "[]" 0 int 0 0 0]
    by (simp add: seed_tokens_def set_seeds_def in_int_range_def numeral_eq_Suc)
  show "init_game_data_from_args ?s (Some [Num 3, Num 3, Num (- 1), Num 0]) 0 int 0 0 0
   = Some (0, \<lparr>heap = [Some [0, 0, 0, 0, 0, 0, 0, 0, 0]], total_live = 0,
                main_data = \<lparr>rows = 3, cols = 3, iters = - 1, output_mode = 0, cells = 0,
                               current_round = 0\<rparr>\<rparr>)"
    using init_game_data_from_args_ok [of 0 "[]" 3 3 ?s "- 1" "[]" 0 int 0 0 0]
    by (simp add: seed_tokens_def set_seeds_def in_int_range_def numeral_eq_Suc)
qed

text \<open>
  Claim C6, amended. The function has one error result, the return value 1, and no check
  of what it reads. For a file that holds four integers \<open>r\<close>, \<open>c\<close>, \<open>it\<close>, \<open>n\<close>, with
  the number of cells \<open>r * c\<close> a value of \<^verbatim>\<open>int\<close>, and then \<open>n\<close> coordinate pairs
  (none when \<open>n\<close> is negative), each with \<open>a * c\<close> a value of \<^verbatim>\<open>int\<close> and its
  row-major index \<open>a * c + b\<close> inside the array of \<open>r * c\<close> cells, it sets up the state (the six
  fields of \<^verbatim>\<open>data\<close>, the counter, a new block cleared and then seeded) and returns 0, or
  1 when \<^verbatim>\<open>fclose\<close> fails. Whenever it returns, it returns 0 or 1. It returns 1 when the
  file cannot be opened and when the first item of the file is not an integer.
\<close>

theorem init_game_data_from_args_no_validation:
  "(nat n = length ps \<and>
    (\<forall>(a, b) \<in> set ps. in_int_range (a * c) \<and> 0 \<le> a * c + b \<and> a * c + b < r * c) \<and>
    in_int_range (r * c) \<longrightarrow>
      init_game_data_from_args s
        (Some (Num r # Num c # Num it # Num n # seed_tokens ps @ rest)) argv2 junk x y fclose_ret
      = Some (if fclose_ret = 0 then 0 else 1,
              \<lparr>heap = heap s @ [Some (set_seeds c ps (replicate (nat (r * c)) 0))],
                total_live = n,
                main_data = \<lparr>rows = r, cols = c, iters = it, output_mode = argv2,
                               cells = length (heap s), current_round = 0\<rparr>\<rparr>)) \<and>
   (init_game_data_from_args s argv1 argv2 junk x y fclose_ret = Some (ret, s') \<longrightarrow>
      ret = 0 \<or> ret = 1) \<and>
   init_game_data_from_args s None argv2 junk x y fclose_ret = Some (1, s) \<and>
   init_game_data_from_args s (Some (Junk # rest)) argv2 junk x y fclose_ret
     = Some (1, s\<lparr>main_data := (main_data s)\<lparr>output_mode := argv2, current_round := 0\<rparr>\<rparr>)"
proof (intro conjI impI)
  assume "nat n = length ps \<and>
    (\<forall>(a, b) \<in> set ps. in_int_range (a * c) \<and> 0 \<le> a * c + b \<and> a * c + b < r * c) \<and>
    in_int_range (r * c)"
  then show "init_game_data_from_args s
        (Some (Num r # Num c # Num it # Num n # seed_tokens ps @ rest)) argv2 junk x y fclose_ret
      = Some (if fclose_ret = 0 then 0 else 1,
              \<lparr>heap = heap s @ [Some (set_seeds c ps (replicate (nat (r * c)) 0))],
                total_live = n,
                main_data = \<lparr>rows = r, cols = c, iters = it, output_mode = argv2,
                               cells = length (heap s), current_round = 0\<rparr>\<rparr>)"
    by (intro init_game_data_from_args_ok) simp_all
next
  assume "init_game_data_from_args s argv1 argv2 junk x y fclose_ret = Some (ret, s')"
  then show "ret = 0 \<or> ret = 1"
    by (rule init_game_data_from_args_ret)
next
  show "init_game_data_from_args s None argv2 junk x y fclose_ret = Some (1, s)"
    by (simp add: init_game_data_from_args_def)
next
  show "init_game_data_from_args s (Some (Junk # rest)) argv2 junk x y fclose_ret
     = Some (1, s\<lparr>main_data := (main_data s)\<lparr>output_mode := argv2, current_round := 0\<rparr>\<rparr>)"
    by (simp add: init_game_data_from_args_def Let_def)
qed

theorem init_game_data_from_args_no_validation_witness:
  "init_game_data_from_args
     \<lparr>heap = [], total_live = 0,
       main_data = \<lparr>rows = 9, cols = 9, iters = 9, output_mode = 9, cells = 9,
                      current_round = 9\<rparr>\<rparr>
     (Some [Num 2, Num 3, Num 4, Num 2, Num 0, Num 1, Num 1, Num 2]) 0 int 0 0 0
   = Some (0, \<lparr>heap = [Some [0, 1, 0, 0, 0, 1]], total_live = 2,
                main_data = \<lparr>rows = 2, cols = 3, iters = 4, output_mode = 0, cells = 0,
                               current_round = 0\<rparr>\<rparr>)"
  using init_game_data_from_args_no_validation [of 2 "[(0, 1), (1, 2)]" 3 2
     "\<lparr>heap = [], total_live = 0,
       main_data = \<lparr>rows = 9, cols = 9, iters = 9, output_mode = 9, cells = 9,
                      current_round = 9\<rparr>\<rparr>" 4 "[]" 0 int 0 0 0]
  by (simp add: seed_tokens_def set_seeds_def in_int_range_def numeral_eq_Suc)

section \<open>Cells are 0 or 1\<close>

text \<open>
  Claim C9, as the specification states it for every grid, does not hold of the rounds of
  \<open>play_gol\<close>: the indices are values of \<^verbatim>\<open>int\<close>. On the grid of 1073741825 rows and
  one column, with every cell 0, the round has no defined result: its pass over the cells
  reaches the last row, where the index expression of \<open>count_neighbors\<close> leaves
  \<^verbatim>\<open>int\<close>. There is no buffer after the round whose cells could be 0 or 1.
\<close>

theorem cells_after_round_on_large_grid:
  "binary (replicate 1073741825 0) \<and>
   play_gol_round
     (\<lparr>heap = [Some (replicate 1073741825 0), Some (replicate 1073741825 0)], total_live = 0,
       main_data = \<lparr>rows = 1073741825, cols = 1, iters = 1, output_mode = 0, cells = 0,
                      current_round = 0\<rparr>\<rparr>, 1) = None"
  using play_gol_round_undefined [of
     "(\<lparr>heap = [Some (replicate 1073741825 0), Some (replicate 1073741825 0)], total_live = 0,
       main_data = \<lparr>rows = 1073741825, cols = 1, iters = 1, output_mode = 0, cells = 0,
                      current_round = 0\<rparr>\<rparr>, 1)" 1073741824]
  by (simp add: large_grid_index binary_replicate)

text \<open>
  Claim C9, amended: for grids of at most \<open>2 ^ 30\<close> rows and \<open>2 ^ 30\<close> columns with
  fewer than \<open>2 ^ 31\<close> cells (\<open>world_ok\<close>, \<open>engine_ok\<close>), and a round index that stays
  a value of \<^verbatim>\<open>int\<close>. Every cell of the current buffer is 0 or 1: in the state
  \<open>init_game_data_from_args\<close> leaves when it returns 0, whatever the file holds; after one
  round from a well-formed loop state whose current cells are 0 or 1, whatever integers
  the next buffer held before (the round writes 0 or 1 at every position of it); and after
  \<open>play_gol\<close> from a well-formed world whose cells are 0 or 1, whatever the number of
  iterations.
\<close>

theorem cells_are_0_or_1:
  "(init_game_data_from_args s argv1 argv2 junk x y fclose_ret = Some (0, s') \<longrightarrow>
      (\<exists>b. current_cells s' = Some b \<and> binary b)) \<and>
   (engine_ok e b \<and> in_int_range (current_round (main_data (fst e)) + 1) \<longrightarrow>
      (\<exists>e' b'. play_gol_round e = Some e' \<and> current_cells (fst e') = Some b' \<and> binary b')) \<and>
   (world_ok (heap t) (main_data t) c \<and>
    round_index_ok (main_data t) (nat (iters (main_data t))) \<longrightarrow>
      (\<exists>t' c'. play_gol junk' t = Some t' \<and> current_cells t' = Some c' \<and> binary c'))"
proof (intro conjI impI)
  assume "init_game_data_from_args s argv1 argv2 junk x y fclose_ret = Some (0, s')"
  then show "\<exists>b. current_cells s' = Some b \<and> binary b"
    by (rule init_game_data_from_args_binary)
next
  assume a: "engine_ok e b \<and> in_int_range (current_round (main_data (fst e)) + 1)"
  then have ok: "engine_ok e b" by simp
  have "play_gol_round e = Some (after_round e b)"
    using a by (intro play_gol_round_eq) simp_all
  moreover have "current_cells (fst (after_round e b)) = Some (next_generation (main_data (fst e)) b)"
    using engine_ok_after_round [OF ok] by (rule engine_ok_current)
  ultimately show "\<exists>e' b'. play_gol_round e = Some e' \<and> current_cells (fst e') = Some b' \<and>
      binary b'"
    using binary_next_generation by blast
next
  assume a: "world_ok (heap t) (main_data t) c \<and>
    round_index_ok (main_data t) (nat (iters (main_data t)))"
  let ?c' = "(next_generation (main_data t) ^^ nat (iters (main_data t))) c"
  from a play_gol_ok [of t c junk'] obtain t' where
    "play_gol junk' t = Some t'" "world_ok (heap t') (main_data t') ?c'"
    by auto
  moreover have "binary ?c'" using a by (simp add: binary_generations_from world_ok_def)
  ultimately show "\<exists>t' c'. play_gol junk' t = Some t' \<and> current_cells t' = Some c' \<and> binary c'"
    by (auto dest: world_ok_current)
qed

theorem cells_are_0_or_1_witness:
  "(\<exists>b. current_cells
       \<lparr>heap = [Some [0, 1, 0, 0, 0, 1]], total_live = 2,
         main_data = \<lparr>rows = 2, cols = 3, iters = 4, output_mode = 0, cells = 0,
                        current_round = 0\<rparr>\<rparr> = Some b \<and> binary b) \<and>
   (\<exists>e' b'. play_gol_round
       (\<lparr>heap = [Some [1, 1, 0, 1, 0, 0, 0, 0, 1], Some [7, - 7, 7, 7, 7, 7, 7, 7, 7]],
         total_live = 3,
         main_data = \<lparr>rows = 3, cols = 3, iters = 2, output_mode = 0, cells = 0,
                        current_round = 0\<rparr>\<rparr>, 1) = Some e' \<and>
       current_cells (fst e') = Some b' \<and> binary b') \<and>
   (\<exists>t' c'. play_gol int
       \<lparr>heap = [Some [0, 1, 0, 0, 0, 1]], total_live = 2,
         main_data = \<lparr>rows = 2, cols = 3, iters = 4, output_mode = 0, cells = 0,
                        current_round = 0\<rparr>\<rparr> = Some t' \<and>
       current_cells t' = Some c' \<and> binary c')"
proof -
  let ?start = "\<lparr>heap = [], total_live = 0,
       main_data = \<lparr>rows = 9, cols = 9, iters = 9, output_mode = 9, cells = 9,
                      current_round = 9\<rparr>\<rparr>"
  let ?s = "\<lparr>heap = [Some [0, 1, 0, 0, 0, 1]], total_live = 2,
         main_data = \<lparr>rows = 2, cols = 3, iters = 4, output_mode = 0, cells = 0,
                        current_round = 0\<rparr>\<rparr>"
  let ?e = "(\<lparr>heap = [Some [1, 1, 0, 1, 0, 0, 0, 0, 1], Some [7, - 7, 7, 7, 7, 7, 7, 7, 7]],
         total_live = 3,
         main_data = \<lparr>rows = 3, cols = 3, iters = 2, output_mode = 0, cells = 0,
                        current_round = 0\<rparr>\<rparr>, 1 :: nat)"
  have i: "init_game_data_from_args ?start
     (Some [Num 2, Num 3, Num 4, Num 2, Num 0, Num 1, Num 1, Num 2]) 0 int 0 0 0 = Some (0, ?s)"
    using init_game_data_from_args_ok [of 2 "[(0, 1), (1, 2)]" 3 2 ?start 4 "[]" 0 int 0 0 0]
    by (simp add: seed_tokens_def set_seeds_def in_int_range_def numeral_eq_Suc)
  have e: "engine_ok ?e [1, 1, 0, 1, 0, 0, 0, 0, 1] \<and>
      in_int_range (current_round (main_data (fst ?e)) + 1)"
    by (simp add: engine_ok_def world_ok_def int_grid_def binary_def in_int_range_def
        block_at_def)
  have w: "world_ok (heap ?s) (main_data ?s) [0, 1, 0, 0, 0, 1] \<and>
      round_index_ok (main_data ?s) (nat (iters (main_data ?s)))"
    by (simp add: world_ok_def int_grid_def binary_def round_index_ok_def block_at_def)
  from cells_are_0_or_1 [of ?start "Some [Num 2, Num 3, Num 4, Num 2, Num 0, Num 1, Num 1, Num 2]"
      0 int 0 0 0 ?s ?e "[1, 1, 0, 1, 0, 0, 0, 0, 1]" ?s "[0, 1, 0, 0, 0, 1]" int] i e w
  show ?thesis by blast
qed

section \<open>No iterations\<close>

text \<open>
  Claim C10. When \<^verbatim>\<open>data->iters\<close> is zero or negative, \<open>play_gol\<close> returns with
  \<^verbatim>\<open>data\<close> (the grid pointer and the round index with it), \<^verbatim>\<open>total_live\<close> and every
  block of the heap as they were. \<^verbatim>\<open>total_live\<close> is then what initialisation read as the
  fourth number of the file, and that is what \<open>main\<close> reports. The file
  \<^verbatim>\<open>2 2 0 2  0 0  0 0\<close> names the cell \<open>(0, 0)\<close> twice: the grid has one live cell,
  and the report is 2.
\<close>

theorem no_iterations_keeps_declared_count:
  "(iters (main_data s) \<le> 0 \<longrightarrow>
      (\<exists>s'. play_gol junk s = Some s' \<and> main_data s' = main_data s \<and>
         total_live s' = total_live s \<and> current_cells s' = current_cells s \<and>
         (\<forall>p. block_at (heap s') p = block_at (heap s) p))) \<and>
   (init_game_data_from_args s (Some (Num r # Num c # Num it # Num n # rest))
      argv2 junk x y fclose_ret = Some (ret, s') \<longrightarrow> total_live s' = n) \<and>
   (it \<le> 0 \<and>
    main argc s (Some (Num r # Num c # Num it # Num n # rest)) argv2 junk junk' x y fclose_ret
      = Some (Report a t) \<longrightarrow> a = it \<and> t = n) \<and>
   init_game_data_from_args
     \<lparr>heap = [], total_live = 0,
       main_data = \<lparr>rows = 0, cols = 0, iters = 0, output_mode = 0, cells = 0,
                      current_round = 0\<rparr>\<rparr>
     (Some [Num 2, Num 2, Num 0, Num 2, Num 0, Num 0, Num 0, Num 0]) 0 int 7 8 0
   = Some (0, \<lparr>heap = [Some [1, 0, 0, 0]], total_live = 2,
                main_data = \<lparr>rows = 2, cols = 2, iters = 0, output_mode = 0, cells = 0,
                               current_round = 0\<rparr>\<rparr>) \<and>
   main 3
     \<lparr>heap = [], total_live = 0,
       main_data = \<lparr>rows = 0, cols = 0, iters = 0, output_mode = 0, cells = 0,
                      current_round = 0\<rparr>\<rparr>
     (Some [Num 2, Num 2, Num 0, Num 2, Num 0, Num 0, Num 0, Num 0]) 0 int int 7 8 0
   = Some (Report 0 2) \<and>
   live_cells [1, 0, 0, 0] = 1"
proof (intro conjI impI)
  assume "iters (main_data s) \<le> 0"
  then have "play_gol junk s = Some (s\<lparr>heap := heap s @ [None]\<rparr>)"
    by (rule play_gol_no_rounds)
  then show "\<exists>s'. play_gol junk s = Some s' \<and> main_data s' = main_data s \<and>
         total_live s' = total_live s \<and> current_cells s' = current_cells s \<and>
         (\<forall>p. block_at (heap s') p = block_at (heap s) p)"
    by (simp add: current_cells_def block_at_append_None)
next
  assume "init_game_data_from_args s (Some (Num r # Num c # Num it # Num n # rest))
      argv2 junk x y fclose_ret = Some (ret, s')"
  then show "total_live s' = n"
    by (simp add: init_game_data_from_args_total_live)
next
  assume a: "it \<le> 0 \<and>
    main argc s (Some (Num r # Num c # Num it # Num n # rest)) argv2 junk junk' x y fclose_ret
      = Some (Report a t)"
  then obtain s1 s2 where
    i: "init_game_data_from_args s (Some (Num r # Num c # Num it # Num n # rest))
          argv2 junk x y fclose_ret = Some (0, s1)"
    and p: "play_gol junk' s1 = Some s2"
    and rep: "a = iters (main_data s2)" "t = total_live s2"
    by (auto simp: main_def split: if_splits option.splits)
  from i have s1: "total_live s1 = n" "iters (main_data s1) = it"
    by (simp_all add: init_game_data_from_args_total_live)
  with a have "play_gol junk' s1 = Some (s1\<lparr>heap := heap s1 @ [None]\<rparr>)"
    by (intro play_gol_no_rounds) simp
  with p have "s2 = s1\<lparr>heap := heap s1 @ [None]\<rparr>" by simp
  with rep s1 show "a = it" "t = n" by simp_all
next
  let ?start = "\<lparr>heap = [], total_live = 0,
       main_data = \<lparr>rows = 0, cols = 0, iters = 0, output_mode = 0, cells = 0,
                      current_round = 0\<rparr>\<rparr>"
  show i: "init_game_data_from_args ?start
     (Some [Num 2, Num 2, Num 0, Num 2, Num 0, Num 0, Num 0, Num 0]) 0 int 7 8 0
   = Some (0, \<lparr>heap = [Some [1, 0, 0, 0]], total_live = 2,
                main_data = \<lparr>rows = 2, cols = 2, iters = 0, output_mode = 0, cells = 0,
                               current_round = 0\<rparr>\<rparr>)"
    using init_game_data_from_args_ok [of 2 "[(0, 0), (0, 0)]" 2 2 ?start 0 "[]" 0 int 7 8 0]
    by (simp add: seed_tokens_def set_seeds_def in_int_range_def numeral_eq_Suc)
  show "main 3 ?start
     (Some [Num 2, Num 2, Num 0, Num 2, Num 0, Num 0, Num 0, Num 0]) 0 int int 7 8 0
   = Some (Report 0 2)"
    by (simp add: main_def i play_gol_no_rounds OUTPUT_NONE_def)
  show "live_cells [1, 0, 0, 0] = 1"
    by (simp add: live_cells_def)
qed

theorem no_iterations_keeps_declared_count_witness:
  "(\<exists>s'. play_gol int
       \<lparr>heap = [Some [1, 0, 0, 0]], total_live = 2,
         main_data = \<lparr>rows = 2, cols = 2, iters = - 3, output_mode = 0, cells = 0,
                        current_round = 0\<rparr>\<rparr> = Some s' \<and>
       main_data s' = \<lparr>rows = 2, cols = 2, iters = - 3, output_mode = 0, cells = 0,
                        current_round = 0\<rparr> \<and>
       total_live s' = 2 \<and> current_cells s' = Some [1, 0, 0, 0])"
proof -
  let ?s = "\<lparr>heap = [Some [1, 0, 0, 0]], total_live = 2,
         main_data = \<lparr>rows = 2, cols = 2, iters = - 3, output_mode = 0, cells = 0,
                        current_round = 0\<rparr>\<rparr>"
  have "iters (main_data ?s) \<le> 0" by simp
  with no_iterations_keeps_declared_count [where s = ?s and junk = int]
  obtain s' where "play_gol int ?s = Some s'" "main_data s' = main_data ?s"
    "total_live s' = total_live ?s" "current_cells s' = current_cells ?s"
    by blast
  then have "play_gol int ?s = Some s' \<and>
       main_data s' = \<lparr>rows = 2, cols = 2, iters = - 3, output_mode = 0, cells = 0,
                        current_round = 0\<rparr> \<and>
       total_live s' = 2 \<and> current_cells s' = Some [1, 0, 0, 0]"
    by (simp add: current_cells_def block_at_def)
  then show ?thesis ..
qed

end
